theory Spec2Isabelle
  imports Main "HOL-Library.Word"
begin

section \<open>The contact form of \<^verbatim>\<open>src/components/sections/Contact.tsx\<close>\<close>

text \<open>
  The source file holds two variants of the React component \<^verbatim>\<open>Contact\<close> (lines 1--453 and
  453--967). Both own three pieces of React state (\<^verbatim>\<open>isSubmitting\<close>, \<^verbatim>\<open>uploadedFiles\<close>,
  \<^verbatim>\<open>errors\<close>), an uncontrolled HTML form, and three handlers: \<^verbatim>\<open>handleFileChange\<close>,
  \<^verbatim>\<open>removeFile\<close> and the asynchronous \<^verbatim>\<open>handleSubmit\<close>. The embedding below threads one
  state record through the handlers; the single \<^verbatim>\<open>await\<close> of \<^verbatim>\<open>handleSubmit\<close> splits it into
  the part that runs inside the submit event and the part that runs when the request
  settles.
\<close>

subsection \<open>JavaScript strings\<close>

text \<open>
  A JavaScript string is a sequence of UTF-16 code units and \<^verbatim>\<open>length\<close> counts code units.
  \<^verbatim>\<open>String.prototype.trim\<close> strips the code units of ECMAScript's WhiteSpace and
  LineTerminator productions from both ends.
\<close>

type_synonym jsstring = "16 word list"

definition ascii :: "string \<Rightarrow> jsstring" where
  "ascii s = map (\<lambda>c. of_char c) s"

definition isWhiteSpace :: "16 word \<Rightarrow> bool" where
  "isWhiteSpace c =
     (c \<in> {0x0009, 0x000A, 0x000B, 0x000C, 0x000D, 0x0020, 0x00A0, 0x1680,
            0x2028, 0x2029, 0x202F, 0x205F, 0x3000, 0xFEFF}
      \<or> (0x2000 \<le> c \<and> c \<le> 0x200A))"

definition trimStart :: "jsstring \<Rightarrow> jsstring" where
  "trimStart s = dropWhile isWhiteSpace s"

definition trimEnd :: "jsstring \<Rightarrow> jsstring" where
  "trimEnd s = rev (dropWhile isWhiteSpace (rev s))"

definition trim :: "jsstring \<Rightarrow> jsstring" where
  "trim s = trimEnd (trimStart s)"

subsection \<open>The part of zod that \<^verbatim>\<open>contactSchema\<close> uses\<close>

text \<open>
  \<^verbatim>\<open>z.string()\<close> carries a list of checks that \<^verbatim>\<open>safeParse\<close> runs in the order they were
  chained. \<^verbatim>\<open>trim\<close> replaces the value under test; \<^verbatim>\<open>min\<close>, \<^verbatim>\<open>max\<close> and \<^verbatim>\<open>email\<close> add an issue
  with the given message when they fail, and the later checks still run. The regular
  expression behind \<^verbatim>\<open>email\<close> belongs to the zod release in use, which the repository does
  not pin in the source file: it is the parameter \<open>isEmail\<close> of everything below.
\<close>

datatype check =
    Trim
  | Min nat jsstring
  | Max nat jsstring
  | Email jsstring

record issue =
  path :: "jsstring list"
  message :: jsstring

fun runChecks :: "(jsstring \<Rightarrow> bool) \<Rightarrow> check list \<Rightarrow> jsstring \<Rightarrow> jsstring list" where
  "runChecks isEmail [] d = []"
| "runChecks isEmail (Trim # cs) d = runChecks isEmail cs (trim d)"
| "runChecks isEmail (Min n m # cs) d =
     (if length d < n then [m] else []) @ runChecks isEmail cs d"
| "runChecks isEmail (Max n m # cs) d =
     (if length d > n then [m] else []) @ runChecks isEmail cs d"
| "runChecks isEmail (Email m # cs) d =
     (if isEmail d then [] else [m]) @ runChecks isEmail cs d"

text \<open>
  \<^verbatim>\<open>z.object\<close> visits the keys of its shape in order. A key that the parsed object lacks
  yields zod's invalid-type issue \<^verbatim>\<open>Required\<close>; a string value is run through the checks
  of its key. Every issue carries the key as its path.
\<close>

definition parseKey ::
  "(jsstring \<Rightarrow> bool) \<Rightarrow> (jsstring \<times> jsstring) list \<Rightarrow> jsstring \<times> check list \<Rightarrow> issue list" where
  "parseKey isEmail obj kc =
     (case map_of obj (fst kc) of
        None \<Rightarrow> [\<lparr>path = [fst kc], message = ascii ''Required''\<rparr>]
      | Some v \<Rightarrow> map (\<lambda>m. \<lparr>path = [fst kc], message = m\<rparr>) (runChecks isEmail (snd kc) v))"

definition safeParse ::
  "(jsstring \<Rightarrow> bool) \<Rightarrow> (jsstring \<times> check list) list \<Rightarrow> (jsstring \<times> jsstring) list \<Rightarrow> issue list" where
  "safeParse isEmail shape obj = concat (map (parseKey isEmail obj) shape)"

subsection \<open>\<^verbatim>\<open>contactSchema\<close> (lines 11--18 and 463--470, identical)\<close>

definition msg_name_min :: jsstring where
  "msg_name_min = ascii ''Ime mora imati najmanje 2 znaka''"

definition msg_name_max :: jsstring where
  "msg_name_max = ascii ''Ime mo'' @ [0x017E] @ ascii ''e imati najvi'' @ [0x0161] @ ascii ''e 100 znakova''"

definition msg_email :: jsstring where
  "msg_email = ascii ''Neispravna email adresa''"

definition msg_phone :: jsstring where
  "msg_phone = ascii ''Broj telefona mora imati najmanje 6 znamenki''"

definition msg_car :: jsstring where
  "msg_car = ascii ''Unesite marku i model''"

definition msg_year :: jsstring where
  "msg_year = ascii ''Unesite godinu (npr. 2020)''"

definition msg_mileage :: jsstring where
  "msg_mileage = ascii ''Unesite kilometra'' @ [0x017E] @ ascii ''u''"

definition contactSchema :: "(jsstring \<times> check list) list" where
  "contactSchema =
     [(ascii ''name'', [Trim, Min 2 msg_name_min, Max 100 msg_name_max]),
      (ascii ''email'', [Trim, Email msg_email]),
      (ascii ''phone'', [Trim, Min 6 msg_phone]),
      (ascii ''car_make_model'', [Trim, Min 2 msg_car]),
      (ascii ''year'', [Trim, Min 4 msg_year]),
      (ascii ''mileage'', [Trim, Min 1 msg_mileage])]"

subsection \<open>Form controls and the object that is validated\<close>

text \<open>
  The form is uncontrolled: the values of its controls live in the DOM and are read with
  \<^verbatim>\<open>new FormData(e.currentTarget)\<close>. The record lists the controls a user can edit; the
  hidden inputs are constants of each variant. The free-text area is named
  \<^verbatim>\<open>additional_info\<close> in the first variant and \<^verbatim>\<open>message\<close> in the second.
  \<^verbatim>\<open>formValues\<close> (lines 55--62) is the object literal with the six validated keys; each
  of these controls is always rendered, so \<^verbatim>\<open>formData.get\<close> yields its string.
\<close>

record fields =
  name :: jsstring
  email :: jsstring
  phone :: jsstring
  car_make_model :: jsstring
  year :: jsstring
  mileage :: jsstring
  fuel_type :: jsstring
  transmission :: jsstring
  engine_size :: jsstring
  engine_power :: jsstring
  additional_info :: jsstring

definition formValues :: "fields \<Rightarrow> (jsstring \<times> jsstring) list" where
  "formValues fd =
     [(ascii ''name'', name fd),
      (ascii ''email'', email fd),
      (ascii ''phone'', phone fd),
      (ascii ''car_make_model'', car_make_model fd),
      (ascii ''year'', year fd),
      (ascii ''mileage'', mileage fd)]"

definition validation :: "(jsstring \<Rightarrow> bool) \<Rightarrow> fields \<Rightarrow> issue list" where
  "validation isEmail fd = safeParse isEmail contactSchema (formValues fd)"

text \<open>
  Lines 67--72: every issue whose first path element is truthy (a non-empty string)
  writes its message under that key; a later issue of the same key overwrites an earlier
  one.
\<close>

definition addError :: "(jsstring \<rightharpoonup> jsstring) \<Rightarrow> issue \<Rightarrow> (jsstring \<rightharpoonup> jsstring)" where
  "addError m err =
     (case path err of
        [] \<Rightarrow> m
      | p # ps \<Rightarrow> (if p = [] then m else m(p \<mapsto> message err)))"

definition newErrors :: "issue list \<Rightarrow> (jsstring \<rightharpoonup> jsstring)" where
  "newErrors issues = foldl addError Map.empty issues"

text \<open>The spec's \<open>Validate\<close>: the error map that \<^verbatim>\<open>handleSubmit\<close> builds from the field values.\<close>

definition Validate :: "(jsstring \<Rightarrow> bool) \<Rightarrow> fields \<Rightarrow> (jsstring \<rightharpoonup> jsstring)" where
  "Validate isEmail fd = newErrors (validation isEmail fd)"

subsection \<open>Files and notifications\<close>

record File =
  fname :: jsstring
  fsize :: nat

text \<open>A call of \<^verbatim>\<open>toast\<close>: the object literal it is given.\<close>

record toast =
  variant :: "jsstring option"
  title :: jsstring
  description :: jsstring
  className :: "jsstring option"

definition toast_too_large :: "File \<Rightarrow> toast" where
  "toast_too_large f =
     \<lparr>variant = Some (ascii ''destructive''),
      title = ascii ''Gre'' @ [0x0161] @ ascii ''ka'',
      description = ascii ''Slika '' @ fname f @ ascii '' je prevelika. Maksimalna veli''
        @ [0x010D] @ ascii ''ina je 10MB.'',
      className = None\<rparr>"

definition toast_validation :: toast where
  "toast_validation =
     \<lparr>variant = Some (ascii ''destructive''),
      title = ascii ''Gre'' @ [0x0161] @ ascii ''ka u formi'',
      description = ascii ''Molimo ispravite ozna'' @ [0x010D] @ ascii ''ena polja prije slanja.'',
      className = None\<rparr>"

definition toast_success :: toast where
  "toast_success =
     \<lparr>variant = None,
      title = [0x2705] @ ascii '' Poruka uspje'' @ [0x0161] @ ascii ''no poslana!'',
      description = ascii ''Primili ste potvrdu na va'' @ [0x0161] @ ascii ''u email adresu. Javit ''
        @ [0x0107] @ ascii ''emo vam se uskoro.'',
      className = Some (ascii ''bg-green-50 border-green-200'')\<rparr>"

definition toast_failure :: toast where
  "toast_failure =
     \<lparr>variant = Some (ascii ''destructive''),
      title = [0x274C] @ ascii '' Gre'' @ [0x0161] @ ascii ''ka pri slanju'',
      description = ascii ''Molimo poku'' @ [0x0161] @ ascii ''ajte ponovno ili nas nazovite direktno.'',
      className = None\<rparr>"

subsection \<open>The request and its outcome\<close>

text \<open>
  The two variants of the component, in the order of the source file. The first sends
  the form as it is (line 83: attachments are staged only); the second appends every
  staged file as \<^verbatim>\<open>attachment_{index}\<close> (lines 535--538).
\<close>

datatype build = FirstVariant | SecondVariant

text \<open>
  The body of the POST is the \<^verbatim>\<open>FormData\<close> of the form: the hidden inputs of the variant
  (their values are literals of the JSX that no handler reads; the model keeps their
  names), the user's controls, the name under which the free-text area is sent, and
  the appended files.
\<close>

record request =
  hidden_inputs :: "jsstring list"
  controls :: fields
  notes_key :: jsstring
  attachments :: "(jsstring \<times> File) list"

definition hiddenInputs :: "build \<Rightarrow> jsstring list" where
  "hiddenInputs b =
     (case b of
        FirstVariant \<Rightarrow>
          [ascii ''access_key'', ascii ''subject'', ascii ''from_name'', ascii ''redirect'',
           ascii ''message'', ascii ''autoresponse'']
      | SecondVariant \<Rightarrow>
          [ascii ''access_key'', ascii ''subject'', ascii ''from_name'', ascii ''autoresponse'',
           ascii ''replyto'', ascii ''template'', ascii ''email_template'',
           ascii ''autoresponse_template''])"

definition notesKey :: "build \<Rightarrow> jsstring" where
  "notesKey b = (case b of FirstVariant \<Rightarrow> ascii ''additional_info'' | SecondVariant \<Rightarrow> ascii ''message'')"

definition FormData :: "build \<Rightarrow> fields \<Rightarrow> request" where
  "FormData b fd = \<lparr>hidden_inputs = hiddenInputs b, controls = fd, notes_key = notesKey b, attachments = []\<rparr>"

function decimal :: "nat \<Rightarrow> jsstring" where
  "decimal n = (if n < 10 then [of_nat (48 + n)] else decimal (n div 10) @ [of_nat (48 + n mod 10)])"
  by pat_completeness auto
termination
  by (relation "measure id") auto

declare decimal.simps [simp del]

definition appendFiles :: "build \<Rightarrow> File list \<Rightarrow> request \<Rightarrow> request" where
  "appendFiles b files formData =
     (case b of
        FirstVariant \<Rightarrow> formData
      | SecondVariant \<Rightarrow>
          formData\<lparr>attachments := attachments formData @
            map (\<lambda>(index, f). (ascii ''attachment_'' @ decimal index, f)) (enumerate 0 files)\<rparr>)"

text \<open>
  What the awaited \<^verbatim>\<open>fetch\<close> brings back: the promise rejects, or a response arrives with
  its \<^verbatim>\<open>ok\<close> flag and a body. Of the body the first variant reads \<^verbatim>\<open>response.json()\<close>: it
  may fail to parse, be \<^verbatim>\<open>null\<close> (reading \<^verbatim>\<open>data.success\<close> then throws), or be a value of
  which \<^verbatim>\<open>data.success\<close> is truthy or falsy and \<^verbatim>\<open>data.message\<close> a string (empty when absent).
\<close>

datatype body = Unparseable | JsonNull | JsonValue bool jsstring

datatype outcome = Rejected | Response bool body

datatype js_error = FetchFailed | JsonSyntaxError | TypeError | Error jsstring

subsection \<open>Component state\<close>

record state =
  isSubmitting :: bool
  uploadedFiles :: "File list"
  errors :: "jsstring \<rightharpoonup> jsstring"
  form :: fields
  toasts :: "toast list"
  console :: "js_error list"
  pending :: "request list"

definition emptyFields :: fields where
  "emptyFields =
     \<lparr>name = [], email = [], phone = [], car_make_model = [], year = [], mileage = [],
      fuel_type = [], transmission = [], engine_size = [], engine_power = [],
      additional_info = []\<rparr>"

text \<open>Lines 23--25: the initial React state, with an untouched form and nothing emitted.\<close>

definition init :: state where
  "init =
     \<lparr>isSubmitting = False, uploadedFiles = [], errors = Map.empty, form = emptyFields,
      toasts = [], console = [], pending = []\<rparr>"

subsection \<open>\<^verbatim>\<open>handleFileChange\<close> (lines 27--41) and \<^verbatim>\<open>removeFile\<close> (lines 43--45)\<close>

definition maxFileSize :: nat where
  "maxFileSize = 10 * 1024 * 1024"

text \<open>
  The callback of \<^verbatim>\<open>files.filter\<close> visits the files in order; an oversized file emits a
  toast and is dropped. The result pairs the toasts emitted with the files kept.
\<close>

fun filterFiles :: "File list \<Rightarrow> toast list \<times> File list" where
  "filterFiles [] = ([], [])"
| "filterFiles (f # fs) =
     (case filterFiles fs of
        (ts, validFiles) \<Rightarrow>
          (if fsize f > maxFileSize then (toast_too_large f # ts, validFiles)
           else (ts, f # validFiles)))"

definition handleFileChange :: "File list option \<Rightarrow> state \<Rightarrow> state" where
  "handleFileChange fileList s =
     (let files = (case fileList of None \<Rightarrow> [] | Some fs \<Rightarrow> fs) in
      case filterFiles files of
        (ts, validFiles) \<Rightarrow>
          s\<lparr>toasts := toasts s @ ts, uploadedFiles := uploadedFiles s @ validFiles\<rparr>)"

definition removeFile :: "int \<Rightarrow> state \<Rightarrow> state" where
  "removeFile index s =
     s\<lparr>uploadedFiles :=
         map snd (filter (\<lambda>(i, _). int i \<noteq> index) (enumerate 0 (uploadedFiles s)))\<rparr>"

subsection \<open>\<^verbatim>\<open>handleSubmit\<close> (lines 47--115 and 499--567)\<close>

text \<open>
  The handler runs in two pieces. The first runs inside the submit event, up to the call
  of \<^verbatim>\<open>fetch\<close>: it clears the errors, raises the flag, validates, and either reports the
  issues and returns, or leaves one request pending. \<^verbatim>\<open>uploadedFiles\<close> is the value of the
  render in which the handler was created, which is the state the event sees.
\<close>

definition handleSubmit :: "(jsstring \<Rightarrow> bool) \<Rightarrow> build \<Rightarrow> state \<Rightarrow> state" where
  "handleSubmit isEmail b s =
     (let s1 = s\<lparr>errors := Map.empty, isSubmitting := True\<rparr>;
          formData = FormData b (form s1);
          issues = validation isEmail (form s1)
      in if issues \<noteq> [] then
           s1\<lparr>errors := newErrors issues,
              toasts := toasts s1 @ [toast_validation],
              isSubmitting := False\<rparr>
         else
           s1\<lparr>pending := pending s1 @ [appendFiles b (uploadedFiles s1) formData]\<rparr>)"

text \<open>
  The second piece runs when the awaited promise settles. It reads \<^verbatim>\<open>e.currentTarget\<close>
  again (lines 99 and 552), and what that read yields is decided by the event system, not
  by the handler: the value is the argument \<open>tgt\<close>. React assigns \<^verbatim>\<open>currentTarget\<close>
  before it calls a listener and sets it back to \<^verbatim>\<open>null\<close> when the listener returns, and an
  \<^verbatim>\<open>async\<close> listener returns at its first \<^verbatim>\<open>await\<close>; the DOM does the same for a native event.
  \<open>afterDispatch\<close> is therefore the value the running component sees, and calling
  \<^verbatim>\<open>reset\<close> on it throws a \<^verbatim>\<open>TypeError\<close>.
\<close>

datatype target = Null | FormElement

definition afterDispatch :: target where
  "afterDispatch = Null"

text \<open>
  Lines 94--101 and 547--554. A statement that throws ends the block: the state keeps
  what was done before it, and the error goes to \<^verbatim>\<open>catch\<close>.
\<close>

definition onSuccess :: "target \<Rightarrow> state \<Rightarrow> state \<times> js_error option" where
  "onSuccess tgt s =
     (let s1 = s\<lparr>toasts := toasts s @ [toast_success]\<rparr> in
      case tgt of
        Null \<Rightarrow> (s1, Some TypeError)
      | FormElement \<Rightarrow>
          (s1\<lparr>form := emptyFields, uploadedFiles := [], errors := Map.empty\<rparr>, None))"

text \<open>The \<^verbatim>\<open>try\<close> block after the request was sent (lines 86--104 and 541--557).\<close>

definition tryBlock :: "build \<Rightarrow> target \<Rightarrow> outcome \<Rightarrow> state \<Rightarrow> state \<times> js_error option" where
  "tryBlock b tgt out s =
     (case b of
        FirstVariant \<Rightarrow>
          (case out of
             Rejected \<Rightarrow> (s, Some FetchFailed)
           | Response ok data \<Rightarrow>
               (case data of
                  Unparseable \<Rightarrow> (s, Some JsonSyntaxError)
                | JsonNull \<Rightarrow> (s, Some TypeError)
                | JsonValue success msg \<Rightarrow>
                    (if success then onSuccess tgt s
                     else (s, Some (Error (if msg \<noteq> [] then msg else ascii ''Submission failed''))))))
      | SecondVariant \<Rightarrow>
          (case out of
             Rejected \<Rightarrow> (s, Some FetchFailed)
           | Response ok data \<Rightarrow>
               (if ok then onSuccess tgt s
                else (s, Some (Error (ascii ''Submission failed''))))))"

text \<open>
  The \<^verbatim>\<open>catch\<close> block (lines 105--111 and 558--563): the first variant logs the error to
  the console; both show the same fixed toast.
\<close>

definition catchBlock :: "build \<Rightarrow> js_error \<Rightarrow> state \<Rightarrow> state" where
  "catchBlock b err s =
     (case b of
        FirstVariant \<Rightarrow> s\<lparr>console := console s @ [err], toasts := toasts s @ [toast_failure]\<rparr>
      | SecondVariant \<Rightarrow> s\<lparr>toasts := toasts s @ [toast_failure]\<rparr>)"

definition finallyBlock :: "state \<Rightarrow> state" where
  "finallyBlock s = s\<lparr>isSubmitting := False\<rparr>"

definition handleSubmit_cont :: "build \<Rightarrow> target \<Rightarrow> outcome \<Rightarrow> state \<Rightarrow> state" where
  "handleSubmit_cont b tgt out s =
     finallyBlock
       (case tryBlock b tgt out s of
          (s1, None) \<Rightarrow> s1
        | (s1, Some err) \<Rightarrow> catchBlock b err s1)"

text \<open>
  The outcomes on which the \<^verbatim>\<open>try\<close> block enters its success branch: \<^verbatim>\<open>data.success\<close> truthy
  in the first variant (line 93), \<^verbatim>\<open>response.ok\<close> in the second (line 546).
\<close>

definition reportsSuccess :: "build \<Rightarrow> outcome \<Rightarrow> bool" where
  "reportsSuccess b out =
     (case out of
        Rejected \<Rightarrow> False
      | Response ok data \<Rightarrow>
          (case b of
             FirstVariant \<Rightarrow> (case data of JsonValue success msg \<Rightarrow> success | _ \<Rightarrow> False)
           | SecondVariant \<Rightarrow> ok))"

subsection \<open>The component as a transition system\<close>

text \<open>
  What can happen to a mounted component: the user edits the controls, picks files,
  clicks the remove button of a preview, asks for submission, or the pending request
  settles. The submit button carries \<^verbatim>\<open>disabled={isSubmitting}\<close> (lines 370--377 and
  884--891): while the flag is up the browser neither activates the button nor submits the
  form implicitly, so no submit event reaches \<^verbatim>\<open>handleSubmit\<close>.
\<close>

datatype event =
    Edit fields
  | FileChange "File list option"
  | RemoveClick int
  | Submit
  | Settle outcome

fun step :: "(jsstring \<Rightarrow> bool) \<Rightarrow> build \<Rightarrow> target \<Rightarrow> state \<Rightarrow> event \<Rightarrow> state" where
  "step isEmail b tgt s (Edit fd) = s\<lparr>form := fd\<rparr>"
| "step isEmail b tgt s (FileChange fileList) = handleFileChange fileList s"
| "step isEmail b tgt s (RemoveClick index) = removeFile index s"
| "step isEmail b tgt s Submit = (if isSubmitting s then s else handleSubmit isEmail b s)"
| "step isEmail b tgt s (Settle out) =
     (case pending s of
        [] \<Rightarrow> s
      | r # rs \<Rightarrow> handleSubmit_cont b tgt out (s\<lparr>pending := rs\<rparr>))"

definition run :: "(jsstring \<Rightarrow> bool) \<Rightarrow> build \<Rightarrow> target \<Rightarrow> state \<Rightarrow> event list \<Rightarrow> state" where
  "run isEmail b tgt s evs = foldl (step isEmail b tgt) s evs"

text \<open>
  The spec (section 6) reads an outcome by itself, without regard to the variant: a
  response with a truthy success indicator is a success; any other shape of the body, a
  status outside 2xx, or a thrown transport error is a failure.
\<close>

definition specFailure :: "outcome \<Rightarrow> bool" where
  "specFailure out =
     (case out of
        Rejected \<Rightarrow> True
      | Response ok data \<Rightarrow>
          (if ok then (case data of JsonValue success msg \<Rightarrow> \<not> success | _ \<Rightarrow> True)
           else True))"

subsection \<open>Comparing the two variants\<close>

text \<open>
  What a user can observe of a state: the flag, the staged files, the error map, the
  controls, the toasts shown, and the field values each pending request carries. The
  console and the rest of a request are left out. \<open>sameVerdict\<close> holds of an event unless
  it settles a request with an outcome that the two variants read differently.
\<close>

definition sameUI :: "state \<Rightarrow> state \<Rightarrow> bool" where
  "sameUI s t =
     (isSubmitting s = isSubmitting t \<and> uploadedFiles s = uploadedFiles t
      \<and> errors s = errors t \<and> form s = form t \<and> toasts s = toasts t
      \<and> map controls (pending s) = map controls (pending t))"

definition sameVerdict :: "event \<Rightarrow> bool" where
  "sameVerdict ev =
     (case ev of
        Settle out \<Rightarrow> reportsSuccess FirstVariant out = reportsSuccess SecondVariant out
      | _ \<Rightarrow> True)"

subsection \<open>Example inputs\<close>

text \<open>
  A stand-in for the library's email test on concrete inputs (the string holds an
  \<^verbatim>\<open>@\<close>), the form of the spec's scenario 7, a form in which every validated field breaks
  its rule, and two files around the size cap.
\<close>

definition hasAt :: "jsstring \<Rightarrow> bool" where
  "hasAt s = (0x0040 \<in> set s)"

definition anaFields :: fields where
  "anaFields =
     \<lparr>name = ascii ''Ana Ani'' @ [0x0107], email = ascii ''ana@example.com'',
      phone = ascii ''0991234567'', car_make_model = ascii ''VW Golf'', year = ascii ''2015'',
      mileage = ascii ''150000'', fuel_type = [], transmission = [], engine_size = [],
      engine_power = [], additional_info = []\<rparr>"

definition badFields :: fields where
  "badFields =
     \<lparr>name = ascii ''A '', email = ascii ''not-an-email'', phone = ascii ''12345 '',
      car_make_model = ascii '' V'', year = ascii ''201 '', mileage = ascii ''  '',
      fuel_type = [], transmission = [], engine_size = [], engine_power = [],
      additional_info = []\<rparr>"

definition smallFile :: File where
  "smallFile = \<lparr>fname = ascii ''a.jpg'', fsize = 9 * 1024 * 1024\<rparr>"

definition bigFile :: File where
  "bigFile = \<lparr>fname = ascii ''b.jpg'', fsize = 11 * 1024 * 1024\<rparr>"

definition anaState :: state where
  "anaState = init\<lparr>form := anaFields, uploadedFiles := [smallFile]\<rparr>"

section \<open>Properties\<close>

subsection \<open>Strings and keys\<close>

lemma unat_of_char: "unat (of_char c :: 16 word) = of_char c"
proof -
  have "(of_char c :: nat) < 65536"
    using nat_of_char_less_256 [of c] by linarith
  then have "unat (of_nat (of_char c) :: 16 word) = of_char c"
    by (simp add: unat_of_nat)
  then show ?thesis by (simp only: of_nat_of_char)
qed

lemma of_char_word_eq_iff: "(of_char c :: 16 word) = of_char d \<longleftrightarrow> c = d"
proof
  assume "(of_char c :: 16 word) = of_char d"
  then have "unat (of_char c :: 16 word) = unat (of_char d :: 16 word)" by simp
  then have "(of_char c :: nat) = of_char d" by (simp add: unat_of_char)
  then show "c = d" by simp
qed simp

lemma ascii_eq_iff: "ascii s = ascii t \<longleftrightarrow> s = t"
  unfolding ascii_def
  by (rule inj_map_eq_map) (simp add: inj_def of_char_word_eq_iff)

lemma ascii_Nil_iff: "ascii s = [] \<longleftrightarrow> s = []"
  by (simp add: ascii_def)

lemma length_ascii: "length (ascii s) = length s"
  by (simp add: ascii_def)

lemma one_le_length: "Suc 0 \<le> length xs \<longleftrightarrow> xs \<noteq> []"
  by (cases xs) simp_all

subsection \<open>Trimming\<close>

lemma trimEnd_fixed: "s = [] \<or> \<not> isWhiteSpace (last s) \<Longrightarrow> trimEnd s = s"
  by (cases s rule: rev_cases) (auto simp: trimEnd_def)

lemma trimEnd_last: "trimEnd s = [] \<or> \<not> isWhiteSpace (last (trimEnd s))"
proof (cases "dropWhile isWhiteSpace (rev s)")
  case Nil
  then show ?thesis by (simp add: trimEnd_def)
next
  case (Cons a as)
  then have "\<not> isWhiteSpace a"
    by (metis hd_dropWhile list.sel(1) list.distinct(1))
  with Cons show ?thesis by (simp add: trimEnd_def)
qed

lemma trimStart_head: "trimStart s = [] \<or> \<not> isWhiteSpace (hd (trimStart s))"
  by (metis hd_dropWhile trimStart_def)

lemma trimEnd_keeps_head:
  "s \<noteq> [] \<Longrightarrow> \<not> isWhiteSpace (hd s) \<Longrightarrow> trimEnd s \<noteq> [] \<and> hd (trimEnd s) = hd s"
proof (induction s rule: rev_induct)
  case Nil
  then show ?case by simp
next
  case (snoc x xs)
  show ?case
  proof (cases xs)
    case Nil
    with snoc.prems show ?thesis by (simp add: trimEnd_def)
  next
    case (Cons y ys)
    with snoc show ?thesis by (auto simp: trimEnd_def)
  qed
qed

lemma trimStart_fixed: "s = [] \<or> \<not> isWhiteSpace (hd s) \<Longrightarrow> trimStart s = s"
  by (cases s) (auto simp: trimStart_def)

lemma trim_idem: "trim (trim s) = trim s"
proof -
  let ?t = "trimStart s"
  have a: "trimStart (trimEnd ?t) = trimEnd ?t"
  proof (cases "?t = []")
    case True
    show ?thesis unfolding True by (simp add: trimEnd_def trimStart_def)
  next
    case False
    with trimStart_head [of s] have "\<not> isWhiteSpace (hd ?t)" by simp
    with False have "trimEnd ?t \<noteq> [] \<and> hd (trimEnd ?t) = hd ?t"
      by (rule trimEnd_keeps_head)
    with \<open>\<not> isWhiteSpace (hd ?t)\<close> show ?thesis
      by (simp add: trimStart_fixed)
  qed
  have b: "trimEnd (trimEnd ?t) = trimEnd ?t"
    using trimEnd_last [of ?t] by (rule trimEnd_fixed)
  show ?thesis
    by (simp add: trim_def a b)
qed

subsection \<open>What \<^verbatim>\<open>safeParse\<close> yields for \<^verbatim>\<open>contactSchema\<close>\<close>

lemma map_of_formValues:
  "map_of (formValues fd) (ascii ''name'') = Some (name fd)"
  "map_of (formValues fd) (ascii ''email'') = Some (email fd)"
  "map_of (formValues fd) (ascii ''phone'') = Some (phone fd)"
  "map_of (formValues fd) (ascii ''car_make_model'') = Some (car_make_model fd)"
  "map_of (formValues fd) (ascii ''year'') = Some (year fd)"
  "map_of (formValues fd) (ascii ''mileage'') = Some (mileage fd)"
  by (simp_all add: formValues_def ascii_eq_iff)

lemma validation_unfold:
  "validation e fd =
     (if length (trim (name fd)) < 2 then [\<lparr>path = [ascii ''name''], message = msg_name_min\<rparr>] else []) @
     (if 100 < length (trim (name fd)) then [\<lparr>path = [ascii ''name''], message = msg_name_max\<rparr>] else []) @
     (if e (trim (email fd)) then [] else [\<lparr>path = [ascii ''email''], message = msg_email\<rparr>]) @
     (if length (trim (phone fd)) < 6 then [\<lparr>path = [ascii ''phone''], message = msg_phone\<rparr>] else []) @
     (if length (trim (car_make_model fd)) < 2 then [\<lparr>path = [ascii ''car_make_model''], message = msg_car\<rparr>] else []) @
     (if length (trim (year fd)) < 4 then [\<lparr>path = [ascii ''year''], message = msg_year\<rparr>] else []) @
     (if length (trim (mileage fd)) < 1 then [\<lparr>path = [ascii ''mileage''], message = msg_mileage\<rparr>] else [])"
  by (simp add: validation_def safeParse_def contactSchema_def parseKey_def map_of_formValues)

lemma Validate_unfold:
  "Validate e fd k =
     (if k = ascii ''name'' then
        (if length (trim (name fd)) < 2 then Some msg_name_min
         else if 100 < length (trim (name fd)) then Some msg_name_max else None)
      else if k = ascii ''email'' then
        (if e (trim (email fd)) then None else Some msg_email)
      else if k = ascii ''phone'' then
        (if length (trim (phone fd)) < 6 then Some msg_phone else None)
      else if k = ascii ''car_make_model'' then
        (if length (trim (car_make_model fd)) < 2 then Some msg_car else None)
      else if k = ascii ''year'' then
        (if length (trim (year fd)) < 4 then Some msg_year else None)
      else if k = ascii ''mileage'' then
        (if length (trim (mileage fd)) < 1 then Some msg_mileage else None)
      else None)"
  by (simp add: Validate_def validation_unfold newErrors_def addError_def ascii_eq_iff ascii_Nil_iff)

lemma validation_Nil_iff:
  "validation e fd = [] \<longleftrightarrow>
     2 \<le> length (trim (name fd)) \<and> length (trim (name fd)) \<le> 100 \<and> e (trim (email fd)) \<and>
     6 \<le> length (trim (phone fd)) \<and> 2 \<le> length (trim (car_make_model fd)) \<and>
     4 \<le> length (trim (year fd)) \<and> 1 \<le> length (trim (mileage fd))"
  by (auto simp add: validation_unfold one_le_length)

lemma Validate_empty_iff:
  "Validate e fd = Map.empty \<longleftrightarrow>
     2 \<le> length (trim (name fd)) \<and> length (trim (name fd)) \<le> 100 \<and> e (trim (email fd)) \<and>
     6 \<le> length (trim (phone fd)) \<and> 2 \<le> length (trim (car_make_model fd)) \<and>
     4 \<le> length (trim (year fd)) \<and> 1 \<le> length (trim (mileage fd))"
  (is "?l \<longleftrightarrow> ?r")
proof
  assume a: ?l
  have "Validate e fd (ascii ''name'') = None" "Validate e fd (ascii ''email'') = None"
    "Validate e fd (ascii ''phone'') = None" "Validate e fd (ascii ''car_make_model'') = None"
    "Validate e fd (ascii ''year'') = None" "Validate e fd (ascii ''mileage'') = None"
    by (simp_all add: a)
  then show ?r
    by (simp add: Validate_unfold ascii_eq_iff one_le_length split: if_splits)
next
  assume ?r
  then show ?l
    by (intro ext) (simp add: Validate_unfold one_le_length)
qed

lemma issues_per_key: "length (filter (\<lambda>i. path i = [k]) (validation e fd)) \<le> 1"
proof -
  consider "k = ascii ''name''" | "k = ascii ''email''" | "k = ascii ''phone''"
    | "k = ascii ''car_make_model''" | "k = ascii ''year''" | "k = ascii ''mileage''"
    | "ascii ''name'' \<noteq> k" "ascii ''email'' \<noteq> k" "ascii ''phone'' \<noteq> k"
      "ascii ''car_make_model'' \<noteq> k" "ascii ''year'' \<noteq> k" "ascii ''mileage'' \<noteq> k"
    by blast
  then show ?thesis
    by cases (simp_all add: validation_unfold ascii_eq_iff)
qed

subsection \<open>Evaluating the examples\<close>

lemma trim_examples:
  "trim (ascii ''A '') = ascii ''A''"
  "trim (ascii ''not-an-email'') = ascii ''not-an-email''"
  "trim (ascii ''12345 '') = ascii ''12345''"
  "trim (ascii '' V'') = ascii ''V''"
  "trim (ascii ''201 '') = ascii ''201''"
  "trim (ascii ''  '') = []"
  "trim (ascii ''Ana Ani'' @ [0x0107]) = ascii ''Ana Ani'' @ [0x0107]"
  "trim (ascii ''ana@example.com'') = ascii ''ana@example.com''"
  "trim (ascii ''0991234567'') = ascii ''0991234567''"
  "trim (ascii ''VW Golf'') = ascii ''VW Golf''"
  "trim (ascii ''2015'') = ascii ''2015''"
  "trim (ascii ''150000'') = ascii ''150000''"
  by (simp_all add: trim_def trimEnd_def trimStart_def isWhiteSpace_def ascii_def)

lemma validation_anaFields: "validation hasAt anaFields = []"
  by (simp add: validation_Nil_iff anaFields_def trim_examples)
   (simp add: hasAt_def ascii_def)

subsection \<open>Validation\<close>

text \<open>
  C1. For every set of field values, the error map built from the issues of
  \<^verbatim>\<open>contactSchema\<close> holds, under each of the six validated keys, the message of the rule
  that the trimmed value of that field breaks (name shorter than 2 or longer than 100,
  email rejected by the email test, phone shorter than 6, car_make_model shorter than 2,
  year shorter than 4, mileage empty) and nothing under any other key; each key's entry
  depends on that field alone, so one failing field does not hide another; validation
  succeeds exactly when the map is empty; and no key receives more than one issue, so no
  message replaces another.
\<close>

theorem C1_Validate_rules:
  "Validate isEmail fd k =
     (if k = ascii ''name'' then
        (if length (trim (name fd)) < 2 then Some msg_name_min
         else if 100 < length (trim (name fd)) then Some msg_name_max else None)
      else if k = ascii ''email'' then
        (if isEmail (trim (email fd)) then None else Some msg_email)
      else if k = ascii ''phone'' then
        (if length (trim (phone fd)) < 6 then Some msg_phone else None)
      else if k = ascii ''car_make_model'' then
        (if length (trim (car_make_model fd)) < 2 then Some msg_car else None)
      else if k = ascii ''year'' then
        (if length (trim (year fd)) < 4 then Some msg_year else None)
      else if k = ascii ''mileage'' then
        (if length (trim (mileage fd)) < 1 then Some msg_mileage else None)
      else None)
   \<and> ((validation isEmail fd = []) = (Validate isEmail fd = Map.empty))
   \<and> length (filter (\<lambda>i. path i = [k]) (validation isEmail fd)) \<le> 1"
  using Validate_unfold [of isEmail fd k] validation_Nil_iff [of isEmail fd]
    Validate_empty_iff [of isEmail fd] issues_per_key [of k isEmail fd]
  by blast

theorem C1_Validate_rules_witness:
  "Validate hasAt badFields (ascii ''name'') = Some msg_name_min
   \<and> Validate hasAt badFields (ascii ''email'') = Some msg_email
   \<and> Validate hasAt badFields (ascii ''phone'') = Some msg_phone
   \<and> Validate hasAt badFields (ascii ''car_make_model'') = Some msg_car
   \<and> Validate hasAt badFields (ascii ''year'') = Some msg_year
   \<and> Validate hasAt badFields (ascii ''mileage'') = Some msg_mileage
   \<and> Validate hasAt badFields (ascii ''fuel_type'') = None
   \<and> Validate hasAt anaFields = Map.empty
   \<and> Validate hasAt (anaFields\<lparr>email := ascii ''not-an-email''\<rparr>) (ascii ''email'') = Some msg_email
   \<and> Validate hasAt (anaFields\<lparr>email := ascii ''not-an-email''\<rparr>) (ascii ''name'') = None"
proof -
  have bad: "\<not> hasAt (ascii ''not-an-email'')"
    by (simp add: hasAt_def ascii_def)
  have "Validate hasAt anaFields = Map.empty"
    using C1_Validate_rules [of hasAt anaFields "[]"] validation_anaFields by simp
  moreover note r = C1_Validate_rules [THEN conjunct1]
  ultimately show ?thesis
    using r [of hasAt badFields "ascii ''name''"] r [of hasAt badFields "ascii ''email''"]
      r [of hasAt badFields "ascii ''phone''"] r [of hasAt badFields "ascii ''car_make_model''"]
      r [of hasAt badFields "ascii ''year''"] r [of hasAt badFields "ascii ''mileage''"]
      r [of hasAt badFields "ascii ''fuel_type''"]
      r [of hasAt "anaFields\<lparr>email := ascii ''not-an-email''\<rparr>" "ascii ''email''"]
      r [of hasAt "anaFields\<lparr>email := ascii ''not-an-email''\<rparr>" "ascii ''name''"]
    by (simp add: badFields_def anaFields_def trim_examples ascii_eq_iff length_ascii bad)
qed

lemma trim_replicate_space:
  assumes "\<not> isWhiteSpace a" and "0 < n"
  shows "trim (replicate n a @ [0x0020]) = replicate n a"
proof -
  obtain m where n: "n = Suc m"
    using assms(2) by (cases n) simp_all
  have sp: "isWhiteSpace 0x0020"
    by (simp add: isWhiteSpace_def)
  have "trimStart (replicate n a @ [0x0020]) = replicate n a @ [0x0020]"
    using assms(1) by (simp add: trimStart_def n)
  moreover have "trimEnd (replicate n a @ [0x0020]) = replicate n a"
    using assms(1) sp by (simp add: trimEnd_def n replicate_append_same)
  ultimately show ?thesis
    by (simp add: trim_def)
qed

lemma trim_pad:
  assumes l: "list_all isWhiteSpace l" and r: "list_all isWhiteSpace r"
    and t: "t = [] \<or> (\<not> isWhiteSpace (hd t) \<and> \<not> isWhiteSpace (last t))"
  shows "trim (l @ t @ r) = t"
proof (cases "t = []")
  case True
  from l r have d: "dropWhile isWhiteSpace (l @ r) = []"
    by (simp add: list_all_iff dropWhile_eq_Nil_conv)
  show ?thesis
    unfolding True
    by (simp only: trim_def trimStart_def trimEnd_def append_Nil d rev.simps dropWhile.simps)
next
  case False
  with t have h: "\<not> isWhiteSpace (hd t)" and e: "\<not> isWhiteSpace (last t)"
    by simp_all
  from l have "trimStart (l @ t @ r) = dropWhile isWhiteSpace (t @ r)"
    by (simp add: trimStart_def list_all_iff dropWhile_append2)
  also from False h have "\<dots> = t @ r"
    by (cases t) simp_all
  finally have a: "trimStart (l @ t @ r) = t @ r" .
  from r have "dropWhile isWhiteSpace (rev r @ rev t) = dropWhile isWhiteSpace (rev t)"
    by (intro dropWhile_append2) (simp add: list_all_iff)
  also from False e have "\<dots> = rev t"
    by (cases t rule: rev_cases) simp_all
  finally have "trimEnd (t @ r) = t"
    by (simp add: trimEnd_def)
  with a show ?thesis
    by (simp add: trim_def)
qed

lemma field_verdicts:
  assumes "trim v = t"
  shows "Validate e (fd\<lparr>name := v\<rparr>) (ascii ''name'')
       = (if length t < 2 then Some msg_name_min
          else if 100 < length t then Some msg_name_max else None)"
    and "Validate e (fd\<lparr>email := v\<rparr>) (ascii ''email'')
       = (if e t then None else Some msg_email)"
    and "Validate e (fd\<lparr>phone := v\<rparr>) (ascii ''phone'')
       = (if length t < 6 then Some msg_phone else None)"
    and "Validate e (fd\<lparr>car_make_model := v\<rparr>) (ascii ''car_make_model'')
       = (if length t < 2 then Some msg_car else None)"
    and "Validate e (fd\<lparr>year := v\<rparr>) (ascii ''year'')
       = (if length t < 4 then Some msg_year else None)"
    and "Validate e (fd\<lparr>mileage := v\<rparr>) (ascii ''mileage'')
       = (if length t < 1 then Some msg_mileage else None)"
  by (simp_all add: Validate_unfold ascii_eq_iff assms)

text \<open>
  C10. Every rule of \<^verbatim>\<open>contactSchema\<close> follows \<^verbatim>\<open>trim()\<close> in its chain, so it tests the value
  stripped of white space at both ends. Take any string \<open>t\<close> that is empty or neither
  starts nor ends with white space, and pad it on the left and on the right with any
  white space (tab, line feed, vertical tab, form feed, carriage return, space,
  no-break space, the Unicode spaces, line and paragraph separator, byte-order mark):
  the padded string trims to \<open>t\<close>, and as the value of a field it gets exactly the verdict
  that the length of \<open>t\<close> (for email: the email test on \<open>t\<close>) decides. Replacing a field by
  its trimmed form changes no entry of the error map. A phone of five digits fails with
  a trailing space (six code units), with a leading space, and between a tab and a line
  feed; six code units with an inner space pass. A name of a hundred letters passes with
  a trailing space (101 code units) and with a space on both sides (102); 101 letters
  fail. A mileage of white space only fails.
\<close>

theorem C10_rules_test_trimmed_values:
  assumes "list_all isWhiteSpace l" and "list_all isWhiteSpace r"
    and "t = [] \<or> (\<not> isWhiteSpace (hd t) \<and> \<not> isWhiteSpace (last t))"
  shows "Validate isEmail (fd\<lparr>name := trim (name fd)\<rparr>) = Validate isEmail fd
   \<and> Validate isEmail (fd\<lparr>email := trim (email fd)\<rparr>) = Validate isEmail fd
   \<and> Validate isEmail (fd\<lparr>phone := trim (phone fd)\<rparr>) = Validate isEmail fd
   \<and> Validate isEmail (fd\<lparr>car_make_model := trim (car_make_model fd)\<rparr>) = Validate isEmail fd
   \<and> Validate isEmail (fd\<lparr>year := trim (year fd)\<rparr>) = Validate isEmail fd
   \<and> Validate isEmail (fd\<lparr>mileage := trim (mileage fd)\<rparr>) = Validate isEmail fd
   \<and> (Validate isEmail fd (ascii ''name'') = None)
       = (2 \<le> length (trim (name fd)) \<and> length (trim (name fd)) \<le> 100)
   \<and> (Validate isEmail fd (ascii ''phone'') = None) = (6 \<le> length (trim (phone fd)))
   \<and> (Validate isEmail fd (ascii ''car_make_model'') = None)
       = (2 \<le> length (trim (car_make_model fd)))
   \<and> (Validate isEmail fd (ascii ''year'') = None) = (4 \<le> length (trim (year fd)))
   \<and> (Validate isEmail fd (ascii ''mileage'') = None) = (1 \<le> length (trim (mileage fd)))
   \<and> length (ascii ''12345 '') = 6
   \<and> Validate isEmail (fd\<lparr>phone := ascii ''12345 ''\<rparr>) (ascii ''phone'') = Some msg_phone
   \<and> length (replicate 100 0x0061 @ [0x0020] :: jsstring) = 101
   \<and> Validate isEmail (fd\<lparr>name := replicate 100 0x0061 @ [0x0020]\<rparr>) (ascii ''name'') = None
   \<and> isWhiteSpace c =
       (c \<in> {0x0009, 0x000A, 0x000B, 0x000C, 0x000D, 0x0020, 0x00A0, 0x1680,
              0x2028, 0x2029, 0x202F, 0x205F, 0x3000, 0xFEFF}
        \<or> (0x2000 \<le> c \<and> c \<le> 0x200A))
   \<and> trim (l @ t @ r) = t
   \<and> Validate isEmail (fd\<lparr>name := l @ t @ r\<rparr>) (ascii ''name'')
       = (if length t < 2 then Some msg_name_min
          else if 100 < length t then Some msg_name_max else None)
   \<and> Validate isEmail (fd\<lparr>email := l @ t @ r\<rparr>) (ascii ''email'')
       = (if isEmail t then None else Some msg_email)
   \<and> Validate isEmail (fd\<lparr>phone := l @ t @ r\<rparr>) (ascii ''phone'')
       = (if length t < 6 then Some msg_phone else None)
   \<and> Validate isEmail (fd\<lparr>car_make_model := l @ t @ r\<rparr>) (ascii ''car_make_model'')
       = (if length t < 2 then Some msg_car else None)
   \<and> Validate isEmail (fd\<lparr>year := l @ t @ r\<rparr>) (ascii ''year'')
       = (if length t < 4 then Some msg_year else None)
   \<and> Validate isEmail (fd\<lparr>mileage := l @ t @ r\<rparr>) (ascii ''mileage'')
       = (if length t < 1 then Some msg_mileage else None)
   \<and> length ([0x0020] @ ascii ''12345'') = 6
   \<and> Validate isEmail (fd\<lparr>phone := [0x0020] @ ascii ''12345''\<rparr>) (ascii ''phone'')
       = Some msg_phone
   \<and> Validate isEmail (fd\<lparr>phone := [0x0009] @ ascii ''12345'' @ [0x000A]\<rparr>) (ascii ''phone'')
       = Some msg_phone
   \<and> Validate isEmail (fd\<lparr>phone := ascii ''123 45''\<rparr>) (ascii ''phone'') = None
   \<and> Validate isEmail (fd\<lparr>name := [0x0020] @ replicate 100 0x0061 @ [0x0020]\<rparr>) (ascii ''name'')
       = None
   \<and> Validate isEmail (fd\<lparr>name := replicate 101 0x0061\<rparr>) (ascii ''name'') = Some msg_name_max
   \<and> Validate isEmail (fd\<lparr>mileage := [0x0020, 0x0009]\<rparr>) (ascii ''mileage'')
       = Some msg_mileage"
proof -
  have same: "Validate isEmail (fd\<lparr>name := trim (name fd)\<rparr>) = Validate isEmail fd"
    "Validate isEmail (fd\<lparr>email := trim (email fd)\<rparr>) = Validate isEmail fd"
    "Validate isEmail (fd\<lparr>phone := trim (phone fd)\<rparr>) = Validate isEmail fd"
    "Validate isEmail (fd\<lparr>car_make_model := trim (car_make_model fd)\<rparr>) = Validate isEmail fd"
    "Validate isEmail (fd\<lparr>year := trim (year fd)\<rparr>) = Validate isEmail fd"
    "Validate isEmail (fd\<lparr>mileage := trim (mileage fd)\<rparr>) = Validate isEmail fd"
    by (simp_all add: Validate_def validation_unfold trim_idem)
  have rules: "(Validate isEmail fd (ascii ''name'') = None)
       = (2 \<le> length (trim (name fd)) \<and> length (trim (name fd)) \<le> 100)"
    "(Validate isEmail fd (ascii ''phone'') = None) = (6 \<le> length (trim (phone fd)))"
    "(Validate isEmail fd (ascii ''car_make_model'') = None)
       = (2 \<le> length (trim (car_make_model fd)))"
    "(Validate isEmail fd (ascii ''year'') = None) = (4 \<le> length (trim (year fd)))"
    "(Validate isEmail fd (ascii ''mileage'') = None) = (1 \<le> length (trim (mileage fd)))"
    by (auto simp add: Validate_unfold ascii_eq_iff one_le_length)
  have na: "\<not> isWhiteSpace 0x0061"
    by (simp add: isWhiteSpace_def)
  then have "trim (replicate 100 0x0061 @ [0x0020]) = replicate 100 0x0061"
    by (rule trim_replicate_space) simp
  then have ex: "Validate isEmail (fd\<lparr>phone := ascii ''12345 ''\<rparr>) (ascii ''phone'') = Some msg_phone"
    "Validate isEmail (fd\<lparr>name := replicate 100 0x0061 @ [0x0020]\<rparr>) (ascii ''name'') = None"
    by (simp_all add: Validate_unfold ascii_eq_iff trim_examples length_ascii)
  have len: "length (ascii ''12345 '') = 6"
    "length (replicate 100 0x0061 @ [0x0020] :: jsstring) = 101"
    "length ([0x0020] @ ascii ''12345'') = 6"
    by (simp_all add: length_ascii)
  have ws: "isWhiteSpace c =
       (c \<in> {0x0009, 0x000A, 0x000B, 0x000C, 0x000D, 0x0020, 0x00A0, 0x1680,
              0x2028, 0x2029, 0x202F, 0x205F, 0x3000, 0xFEFF}
        \<or> (0x2000 \<le> c \<and> c \<le> 0x200A))"
    by (simp add: isWhiteSpace_def)
  have pad: "trim (l @ t @ r) = t"
    using assms by (rule trim_pad)
  have padded: "Validate isEmail (fd\<lparr>name := l @ t @ r\<rparr>) (ascii ''name'')
       = (if length t < 2 then Some msg_name_min
          else if 100 < length t then Some msg_name_max else None)"
    "Validate isEmail (fd\<lparr>email := l @ t @ r\<rparr>) (ascii ''email'')
       = (if isEmail t then None else Some msg_email)"
    "Validate isEmail (fd\<lparr>phone := l @ t @ r\<rparr>) (ascii ''phone'')
       = (if length t < 6 then Some msg_phone else None)"
    "Validate isEmail (fd\<lparr>car_make_model := l @ t @ r\<rparr>) (ascii ''car_make_model'')
       = (if length t < 2 then Some msg_car else None)"
    "Validate isEmail (fd\<lparr>year := l @ t @ r\<rparr>) (ascii ''year'')
       = (if length t < 4 then Some msg_year else None)"
    "Validate isEmail (fd\<lparr>mileage := l @ t @ r\<rparr>) (ascii ''mileage'')
       = (if length t < 1 then Some msg_mileage else None)"
    by (rule field_verdicts [OF pad])+
  have sp: "isWhiteSpace 0x0020" "isWhiteSpace 0x0009" "isWhiteSpace 0x000A"
    by (simp_all add: isWhiteSpace_def)
  have dig: "\<not> isWhiteSpace (hd (ascii ''12345''))" "\<not> isWhiteSpace (last (ascii ''12345''))"
    "\<not> isWhiteSpace (hd (ascii ''123 45''))" "\<not> isWhiteSpace (last (ascii ''123 45''))"
    by (simp_all add: ascii_def isWhiteSpace_def)
  have t1: "trim ([0x0020] @ ascii ''12345'') = ascii ''12345''"
    using trim_pad [of "[0x0020]" "[]" "ascii ''12345''"] sp dig by simp
  have t2: "trim ([0x0009] @ ascii ''12345'' @ [0x000A]) = ascii ''12345''"
    using trim_pad [of "[0x0009]" "[0x000A]" "ascii ''12345''"] sp dig by simp
  have t3: "trim (ascii ''123 45'') = ascii ''123 45''"
    using trim_pad [of "[]" "[]" "ascii ''123 45''"] dig by simp
  have t4: "trim ([0x0020] @ replicate 100 0x0061 @ [0x0020]) = replicate 100 0x0061"
    using trim_pad [of "[0x0020]" "[0x0020]" "replicate 100 0x0061"] sp na by simp
  have t5: "trim (replicate 101 0x0061) = replicate 101 0x0061"
    using trim_pad [of "[]" "[]" "replicate 101 0x0061"] na by simp
  have t6: "trim [0x0020, 0x0009] = []"
    using trim_pad [of "[0x0020, 0x0009]" "[]" "[]"] sp by simp
  have more: "Validate isEmail (fd\<lparr>phone := [0x0020] @ ascii ''12345''\<rparr>) (ascii ''phone'')
       = Some msg_phone"
    "Validate isEmail (fd\<lparr>phone := [0x0009] @ ascii ''12345'' @ [0x000A]\<rparr>) (ascii ''phone'')
       = Some msg_phone"
    "Validate isEmail (fd\<lparr>phone := ascii ''123 45''\<rparr>) (ascii ''phone'') = None"
    "Validate isEmail (fd\<lparr>name := [0x0020] @ replicate 100 0x0061 @ [0x0020]\<rparr>) (ascii ''name'')
       = None"
    "Validate isEmail (fd\<lparr>name := replicate 101 0x0061\<rparr>) (ascii ''name'') = Some msg_name_max"
    "Validate isEmail (fd\<lparr>mileage := [0x0020, 0x0009]\<rparr>) (ascii ''mileage'')
       = Some msg_mileage"
    using field_verdicts(3) [OF t1, of isEmail fd] field_verdicts(3) [OF t2, of isEmail fd]
      field_verdicts(3) [OF t3, of isEmail fd] field_verdicts(1) [OF t4, of isEmail fd]
      field_verdicts(1) [OF t5, of isEmail fd] field_verdicts(6) [OF t6, of isEmail fd]
    by (simp_all add: length_ascii)
  from same rules ex len ws pad padded more show ?thesis
    by blast
qed

theorem C10_rules_test_trimmed_values_witness:
  "Validate hasAt (badFields\<lparr>phone := ascii ''12345''\<rparr>) = Validate hasAt badFields
   \<and> Validate hasAt badFields (ascii ''phone'') = Some msg_phone
   \<and> length (phone badFields) = 6
   \<and> Validate hasAt (anaFields\<lparr>name := replicate 100 0x0061 @ [0x0020]\<rparr>) (ascii ''name'') = None
   \<and> trim ([0x0020, 0x0009] @ ascii ''12345'' @ [0x000A]) = ascii ''12345''
   \<and> Validate hasAt (anaFields\<lparr>phone := [0x0020, 0x0009] @ ascii ''12345'' @ [0x000A]\<rparr>)
        (ascii ''phone'') = Some msg_phone
   \<and> Validate hasAt (anaFields\<lparr>phone := [0x0020, 0x0009] @ ascii ''12345'' @ [0x000A]\<rparr>)
        (ascii ''year'') = None
   \<and> Validate hasAt (anaFields\<lparr>phone := [0x0020] @ ascii ''12345''\<rparr>) (ascii ''phone'')
        = Some msg_phone"
proof -
  have w: "list_all isWhiteSpace [0x0020, 0x0009]" "list_all isWhiteSpace [0x000A]"
    by (simp_all add: isWhiteSpace_def)
  have c: "ascii ''12345'' = [] \<or> (\<not> isWhiteSpace (hd (ascii ''12345''))
      \<and> \<not> isWhiteSpace (last (ascii ''12345'')))"
    by (simp add: ascii_def isWhiteSpace_def)
  note t = C10_rules_test_trimmed_values [OF w c, of hasAt badFields]
  note u = C10_rules_test_trimmed_values [OF w c, of hasAt anaFields]
  have "Validate hasAt (badFields\<lparr>phone := trim (phone badFields)\<rparr>) = Validate hasAt badFields"
    using t by blast
  moreover have "Validate hasAt (badFields\<lparr>phone := ascii ''12345 ''\<rparr>) (ascii ''phone'') = Some msg_phone"
    using t by blast
  moreover have "Validate hasAt (anaFields\<lparr>name := replicate 100 0x0061 @ [0x0020]\<rparr>) (ascii ''name'') = None"
    using u by blast
  moreover have "trim ([0x0020, 0x0009] @ ascii ''12345'' @ [0x000A]) = ascii ''12345''"
    using u by blast
  moreover have "Validate hasAt (anaFields\<lparr>phone := [0x0020, 0x0009] @ ascii ''12345'' @ [0x000A]\<rparr>)
        (ascii ''phone'') = (if length (ascii ''12345'') < 6 then Some msg_phone else None)"
    using u by blast
  moreover have "Validate hasAt (anaFields\<lparr>phone := [0x0020] @ ascii ''12345''\<rparr>) (ascii ''phone'')
        = Some msg_phone"
    using u by blast
  moreover have "Validate hasAt (anaFields\<lparr>phone := [0x0020, 0x0009] @ ascii ''12345'' @ [0x000A]\<rparr>)
        (ascii ''year'') = None"
    by (simp add: Validate_unfold ascii_eq_iff anaFields_def trim_examples length_ascii)
  ultimately show ?thesis
    by (simp add: badFields_def trim_examples length_ascii)
qed

subsection \<open>Attachments\<close>

lemma filterFiles_eq:
  "filterFiles files =
     (map toast_too_large (filter (\<lambda>f. fsize f > maxFileSize) files),
      filter (\<lambda>f. \<not> fsize f > maxFileSize) files)"
  by (induction files) (simp_all split: prod.splits)

lemma length_filter_complement:
  "length (filter (\<lambda>x. \<not> P x) xs) = length xs - length (filter P xs)"
  using sum_length_filter_compl [of P xs] by simp

text \<open>
  C5. For every staged list and every list of selected files (or none), with \<open>K\<close> the
  number of selected files larger than 10MB and \<open>N\<close> their total number:
  \<^verbatim>\<open>handleFileChange\<close> leaves the staged files in place and appends after them the selected
  files that are not larger than 10MB, in their order; these are \<open>N - K\<close> files, none of
  them larger than 10MB; and it emits \<open>K\<close> toasts, the rejection toast of each oversized
  file in order, and touches nothing else.
\<close>

theorem C5_handleFileChange:
  "uploadedFiles (handleFileChange (Some files) s)
     = uploadedFiles s @ filter (\<lambda>f. fsize f \<le> 10 * 1024 * 1024) files
   \<and> length (uploadedFiles (handleFileChange (Some files) s))
     = length (uploadedFiles s)
       + (length files - length (filter (\<lambda>f. fsize f > 10 * 1024 * 1024) files))
   \<and> list_all (\<lambda>f. fsize f \<le> 10 * 1024 * 1024)
        (drop (length (uploadedFiles s)) (uploadedFiles (handleFileChange (Some files) s)))
   \<and> toasts (handleFileChange (Some files) s)
     = toasts s @ map toast_too_large (filter (\<lambda>f. fsize f > 10 * 1024 * 1024) files)
   \<and> length (toasts (handleFileChange (Some files) s))
     = length (toasts s) + length (filter (\<lambda>f. fsize f > 10 * 1024 * 1024) files)
   \<and> handleFileChange None s = s
   \<and> handleFileChange (Some files) s
     = s\<lparr>toasts := toasts (handleFileChange (Some files) s),
         uploadedFiles := uploadedFiles (handleFileChange (Some files) s)\<rparr>"
proof -
  have nle: "(\<lambda>f. \<not> fsize f > maxFileSize) = (\<lambda>f::File. fsize f \<le> 10 * 1024 * 1024)"
    by (auto simp add: maxFileSize_def)
  have gt: "(\<lambda>f. fsize f > maxFileSize) = (\<lambda>f::File. fsize f > 10 * 1024 * 1024)"
    by (simp add: maxFileSize_def)
  have ff: "filterFiles files =
     (map toast_too_large (filter (\<lambda>f. fsize f > 10 * 1024 * 1024) files),
      filter (\<lambda>f. fsize f \<le> 10 * 1024 * 1024) files)"
    using filterFiles_eq [of files] by (simp only: nle gt)
  have len: "length (filter (\<lambda>f::File. fsize f \<le> 10 * 1024 * 1024) files)
      = length files - length (filter (\<lambda>f. fsize f > 10 * 1024 * 1024) files)"
    using length_filter_complement [of "\<lambda>f::File. fsize f > 10 * 1024 * 1024" files]
    by (simp add: not_less)
  have le: "length (filter (\<lambda>f::File. fsize f > 10 * 1024 * 1024) files) \<le> length files"
    by (rule length_filter_le)
  show ?thesis
    using len le by (simp add: handleFileChange_def ff list_all_iff)
qed

theorem C5_handleFileChange_witness:
  "uploadedFiles (handleFileChange (Some [bigFile, smallFile]) init) = [smallFile]
   \<and> toasts (handleFileChange (Some [bigFile, smallFile]) init) = [toast_too_large bigFile]
   \<and> length (uploadedFiles (handleFileChange (Some [bigFile, smallFile, bigFile]) anaState)) = 2"
  using C5_handleFileChange [of "[bigFile, smallFile]" init]
    C5_handleFileChange [of "[bigFile, smallFile, bigFile]" anaState]
  by (simp add: init_def anaState_def bigFile_def smallFile_def)

lemma filter_index_enumerate:
  "map snd (filter (\<lambda>(i, _). int i \<noteq> index) (enumerate n xs)) =
     (if int n \<le> index \<and> index < int n + int (length xs)
      then take (nat index - n) xs @ drop (Suc (nat index - n)) xs else xs)"
proof (induction xs arbitrary: n)
  case Nil
  then show ?case by simp
next
  case (Cons x xs)
  show ?case
  proof (cases "int n = index")
    case True
    have "map snd (filter (\<lambda>(i, _). int i \<noteq> index) (enumerate (Suc n) xs)) = xs"
      using Cons.IH [of "Suc n"] True by simp
    with True show ?thesis by auto
  next
    case False
    then have "nat index - n = Suc (nat index - Suc n)" if "int n \<le> index"
      using that by linarith
    with False show ?thesis
      using Cons.IH [of "Suc n"] by auto
  qed
qed

text \<open>
  C6. For every staged list and every index: when the index is a position of the list,
  \<^verbatim>\<open>removeFile\<close> yields the files before that position followed by the files after it
  (one file fewer, the others in their order); for any other index, negative ones
  included, it yields the list unchanged. Nothing but the staged list changes.
\<close>

theorem C6_removeFile:
  "uploadedFiles (removeFile index s) =
     (if 0 \<le> index \<and> index < int (length (uploadedFiles s))
      then take (nat index) (uploadedFiles s) @ drop (Suc (nat index)) (uploadedFiles s)
      else uploadedFiles s)
   \<and> removeFile index s = s\<lparr>uploadedFiles := uploadedFiles (removeFile index s)\<rparr>"
  using filter_index_enumerate [of index 0 "uploadedFiles s"]
  by (simp add: removeFile_def)

theorem C6_removeFile_witness:
  "uploadedFiles (removeFile 1 (init\<lparr>uploadedFiles := [smallFile, bigFile, smallFile]\<rparr>))
     = [smallFile, smallFile]
   \<and> uploadedFiles (removeFile 3 (init\<lparr>uploadedFiles := [smallFile, bigFile, smallFile]\<rparr>))
     = [smallFile, bigFile, smallFile]
   \<and> uploadedFiles (removeFile (- 1) (init\<lparr>uploadedFiles := [smallFile, bigFile, smallFile]\<rparr>))
     = [smallFile, bigFile, smallFile]"
  using C6_removeFile [of 1 "init\<lparr>uploadedFiles := [smallFile, bigFile, smallFile]\<rparr>"]
    C6_removeFile [of 3 "init\<lparr>uploadedFiles := [smallFile, bigFile, smallFile]\<rparr>"]
    C6_removeFile [of "- 1" "init\<lparr>uploadedFiles := [smallFile, bigFile, smallFile]\<rparr>"]
  by simp

subsection \<open>The two pieces of \<^verbatim>\<open>handleSubmit\<close>\<close>

lemma handleSubmit_invalid:
  "validation e (form s) \<noteq> [] \<Longrightarrow>
   handleSubmit e b s =
     s\<lparr>errors := Validate e (form s), isSubmitting := False,
       toasts := toasts s @ [toast_validation]\<rparr>"
  by (simp add: handleSubmit_def Validate_def Let_def)

lemma handleSubmit_valid:
  "validation e (form s) = [] \<Longrightarrow>
   handleSubmit e b s =
     s\<lparr>errors := Map.empty, isSubmitting := True,
       pending := pending s @ [appendFiles b (uploadedFiles s) (FormData b (form s))]\<rparr>"
  by (simp add: handleSubmit_def Let_def)

lemma Validate_valid: "validation e fd = [] \<Longrightarrow> Validate e fd = Map.empty"
  by (simp add: Validate_def newErrors_def)

lemma errors_handleSubmit: "errors (handleSubmit e b s) = Validate e (form s)"
  by (cases "validation e (form s) = []")
    (simp_all add: handleSubmit_invalid handleSubmit_valid Validate_valid)

lemma form_handleSubmit: "form (handleSubmit e b s) = form s"
  by (simp add: handleSubmit_def Let_def)

lemma tryBlock_failure:
  "\<not> reportsSuccess b out \<Longrightarrow> \<exists>err. tryBlock b tgt out s = (s, Some err)"
  by (auto simp add: reportsSuccess_def tryBlock_def split: build.splits outcome.splits body.splits)

lemma tryBlock_success:
  "reportsSuccess b out \<Longrightarrow> tryBlock b tgt out s = onSuccess tgt s"
  by (auto simp add: reportsSuccess_def tryBlock_def split: build.splits outcome.splits body.splits)

lemma cont_failure:
  assumes "\<not> reportsSuccess b out"
  shows "\<exists>err. handleSubmit_cont b tgt out s =
           (case b of
              FirstVariant \<Rightarrow>
                s\<lparr>isSubmitting := False, toasts := toasts s @ [toast_failure],
                  console := console s @ [err]\<rparr>
            | SecondVariant \<Rightarrow> s\<lparr>isSubmitting := False, toasts := toasts s @ [toast_failure]\<rparr>)"
proof -
  from assms obtain err where "tryBlock b tgt out s = (s, Some err)"
    using tryBlock_failure by blast
  then have "handleSubmit_cont b tgt out s =
           (case b of
              FirstVariant \<Rightarrow>
                s\<lparr>isSubmitting := False, toasts := toasts s @ [toast_failure],
                  console := console s @ [err]\<rparr>
            | SecondVariant \<Rightarrow> s\<lparr>isSubmitting := False, toasts := toasts s @ [toast_failure]\<rparr>)"
    by (simp add: handleSubmit_cont_def catchBlock_def finallyBlock_def split: build.splits)
  then show ?thesis ..
qed

lemma cont_success_Null:
  assumes "reportsSuccess b out"
  shows "handleSubmit_cont b Null out s =
           (case b of
              FirstVariant \<Rightarrow>
                s\<lparr>isSubmitting := False, toasts := toasts s @ [toast_success, toast_failure],
                  console := console s @ [TypeError]\<rparr>
            | SecondVariant \<Rightarrow>
                s\<lparr>isSubmitting := False, toasts := toasts s @ [toast_success, toast_failure]\<rparr>)"
  using assms
  by (simp add: handleSubmit_cont_def tryBlock_success onSuccess_def catchBlock_def
      finallyBlock_def split: build.splits)

lemma cont_success_FormElement:
  assumes "reportsSuccess b out"
  shows "handleSubmit_cont b FormElement out s =
           s\<lparr>isSubmitting := False, uploadedFiles := [], errors := Map.empty,
             form := emptyFields, toasts := toasts s @ [toast_success]\<rparr>"
  using assms
  by (simp add: handleSubmit_cont_def tryBlock_success onSuccess_def finallyBlock_def)

lemma isSubmitting_cont: "\<not> isSubmitting (handleSubmit_cont b tgt out s)"
  by (simp add: handleSubmit_cont_def finallyBlock_def)

lemma pending_cont: "pending (handleSubmit_cont b tgt out s) = pending s"
  by (cases b; cases out; cases tgt)
    (auto simp add: handleSubmit_cont_def finallyBlock_def tryBlock_def onSuccess_def
      catchBlock_def split: body.splits)

lemma errors_cont:
  "errors (handleSubmit_cont b tgt out s) = errors s
   \<or> errors (handleSubmit_cont b tgt out s) = Map.empty"
  by (cases b; cases out; cases tgt)
    (auto simp add: handleSubmit_cont_def finallyBlock_def tryBlock_def onSuccess_def
      catchBlock_def split: body.splits)

lemma cont_failure_fields:
  assumes "\<not> reportsSuccess b out"
  shows "form (handleSubmit_cont b tgt out s) = form s"
    and "uploadedFiles (handleSubmit_cont b tgt out s) = uploadedFiles s"
    and "errors (handleSubmit_cont b tgt out s) = errors s"
    and "toasts (handleSubmit_cont b tgt out s) = toasts s @ [toast_failure]"
  using cont_failure [OF assms, of tgt s] by (cases b; auto)+

subsection \<open>Submission\<close>

lemma run_Nil: "run e b tgt s [] = s"
  by (simp add: run_def)

lemma run_Cons: "run e b tgt s (ev # evs) = run e b tgt (step e b tgt s ev) evs"
  by (simp add: run_def)

lemma run_snoc: "run e b tgt s (evs @ [ev]) = step e b tgt (run e b tgt s evs) ev"
  by (simp add: run_def)

lemma step_flag_pending:
  assumes "length (pending s) \<le> 1" and "isSubmitting s = (pending s \<noteq> [])"
  shows "length (pending (step e b tgt s ev)) \<le> 1
    \<and> isSubmitting (step e b tgt s ev) = (pending (step e b tgt s ev) \<noteq> [])"
proof (cases ev)
  case (Edit fd)
  with assms show ?thesis by simp
next
  case (FileChange fl)
  with assms show ?thesis
    by (simp add: handleFileChange_def Let_def split: prod.splits)
next
  case (RemoveClick i)
  with assms show ?thesis by (simp add: removeFile_def)
next
  case Submit
  show ?thesis
  proof (cases "isSubmitting s")
    case True
    with assms Submit show ?thesis by simp
  next
    case False
    with assms have "pending s = []" by simp
    with False Submit show ?thesis
      by (cases "validation e (form s) = []")
        (simp_all add: handleSubmit_valid handleSubmit_invalid)
  qed
next
  case (Settle out)
  show ?thesis
  proof (cases "pending s")
    case Nil
    with assms Settle show ?thesis by simp
  next
    case (Cons r rs)
    with assms(1) have "rs = []" by simp
    with Cons Settle show ?thesis
      by (simp add: pending_cont isSubmitting_cont)
  qed
qed

lemma run_flag_pending:
  "length (pending (run e b tgt init evs)) \<le> 1
   \<and> isSubmitting (run e b tgt init evs) = (pending (run e b tgt init evs) \<noteq> [])"
proof (induction evs rule: rev_induct)
  case Nil
  show ?case by (simp add: run_Nil init_def)
next
  case (snoc ev evs)
  then show ?case
    using step_flag_pending [of "run e b tgt init evs" e b tgt ev]
    by (simp add: run_snoc)
qed

text \<open>
  C4. The flag is down when \<^verbatim>\<open>handleSubmit\<close> returns from a failed validation and when its
  continuation ends, whatever the outcome of the request and whatever \<^verbatim>\<open>e.currentTarget\<close>
  is by then (success, rejected promise, failure response: the \<^verbatim>\<open>finally\<close> block). While
  the flag is up a submit request changes nothing: the state, with its errors, toasts and
  pending requests, is the one before. In every state the component reaches from its
  initial state, at most one request is pending, and the flag is up exactly while one is.
\<close>

theorem C4_single_submission:
  "(validation isEmail (form s) \<noteq> [] \<longrightarrow> \<not> isSubmitting (handleSubmit isEmail b s))
   \<and> \<not> isSubmitting (handleSubmit_cont b tgt out s)
   \<and> (isSubmitting s \<longrightarrow> step isEmail b tgt s Submit = s)
   \<and> length (pending (run isEmail b tgt init evs)) \<le> 1
   \<and> isSubmitting (run isEmail b tgt init evs) = (pending (run isEmail b tgt init evs) \<noteq> [])"
  using run_flag_pending [of isEmail b tgt evs]
  by (simp add: handleSubmit_invalid isSubmitting_cont)

theorem C4_single_submission_witness:
  "isSubmitting (handleSubmit hasAt FirstVariant (init\<lparr>form := badFields\<rparr>)) = False
   \<and> isSubmitting (run hasAt SecondVariant Null init [Edit anaFields, Submit]) = True
   \<and> run hasAt SecondVariant Null init [Edit anaFields, Submit, Submit]
       = run hasAt SecondVariant Null init [Edit anaFields, Submit]
   \<and> length (pending (run hasAt SecondVariant Null init [Edit anaFields, Submit, Submit])) = 1
   \<and> isSubmitting (run hasAt SecondVariant Null init
        [Edit anaFields, Submit, Submit, Settle (Response True Unparseable)]) = False"
proof -
  have bad: "validation hasAt (form (init\<lparr>form := badFields\<rparr>)) \<noteq> []"
    by (simp add: validation_Nil_iff badFields_def trim_examples length_ascii)
  have up: "isSubmitting (run hasAt SecondVariant Null init [Edit anaFields, Submit])"
    by (simp add: run_Cons run_Nil init_def handleSubmit_valid validation_anaFields)
  have one: "length (pending (run hasAt SecondVariant Null init [Edit anaFields, Submit])) = 1"
    by (simp add: run_Cons run_Nil init_def handleSubmit_valid validation_anaFields)
  note c = C4_single_submission [of hasAt]
  have again: "step hasAt SecondVariant Null (run hasAt SecondVariant Null init [Edit anaFields, Submit]) Submit
      = run hasAt SecondVariant Null init [Edit anaFields, Submit]"
    using c [of "run hasAt SecondVariant Null init [Edit anaFields, Submit]" SecondVariant Null] up
    by blast
  have same: "run hasAt SecondVariant Null init [Edit anaFields, Submit, Submit]
       = run hasAt SecondVariant Null init [Edit anaFields, Submit]"
    using again run_snoc [of hasAt SecondVariant Null init "[Edit anaFields, Submit]" Submit]
    by simp
  have down: "\<not> isSubmitting (handleSubmit hasAt FirstVariant (init\<lparr>form := badFields\<rparr>))"
    using c [of "init\<lparr>form := badFields\<rparr>" FirstVariant] bad by blast
  have fin: "\<not> isSubmitting (run hasAt SecondVariant Null init
        [Edit anaFields, Submit, Submit, Settle (Response True Unparseable)])"
    using c [of _ SecondVariant Null _ "[Edit anaFields, Submit, Submit, Settle (Response True Unparseable)]"]
      run_snoc [of hasAt SecondVariant Null init "[Edit anaFields, Submit, Submit]" "Settle (Response True Unparseable)"]
      same one
    by (cases "pending (run hasAt SecondVariant Null init [Edit anaFields, Submit])")
      (simp_all add: isSubmitting_cont)
  from down up same one fin show ?thesis by simp
qed

subsection \<open>The error map\<close>

lemma dom_Validate:
  "dom (Validate e fd) \<subseteq>
     {ascii ''name'', ascii ''email'', ascii ''phone'', ascii ''car_make_model'',
      ascii ''year'', ascii ''mileage''}"
proof
  fix k
  assume "k \<in> dom (Validate e fd)"
  then have "Validate e fd k \<noteq> None" by auto
  then show "k \<in> {ascii ''name'', ascii ''email'', ascii ''phone'', ascii ''car_make_model'',
      ascii ''year'', ascii ''mileage''}"
    by (simp add: Validate_unfold split: if_splits)
qed

lemma errors_step_Submit:
  "errors (step e b tgt s Submit) = (if isSubmitting s then errors s else Validate e (form s))"
  by (simp add: errors_handleSubmit)

lemma errors_step_other:
  "ev \<noteq> Submit \<Longrightarrow>
   errors (step e b tgt s ev) = errors s \<or> errors (step e b tgt s ev) = Map.empty"
proof (cases ev)
  case (Settle out)
  show ?thesis
  proof (cases "pending s")
    case Nil
    with Settle show ?thesis by simp
  next
    case (Cons r rs)
    with Settle show ?thesis
      using errors_cont [of b tgt out "s\<lparr>pending := rs\<rparr>"] by simp
  qed
qed (simp_all add: handleFileChange_def removeFile_def Let_def split: prod.splits)

lemma dom_errors_step:
  assumes "dom (errors s) \<subseteq>
     {ascii ''name'', ascii ''email'', ascii ''phone'', ascii ''car_make_model'',
      ascii ''year'', ascii ''mileage''}"
  shows "dom (errors (step e b tgt s ev)) \<subseteq>
     {ascii ''name'', ascii ''email'', ascii ''phone'', ascii ''car_make_model'',
      ascii ''year'', ascii ''mileage''}"
proof (cases "ev = Submit")
  case True
  with assms dom_Validate [of e "form s"] show ?thesis
    by (simp only: errors_step_Submit split: if_splits) auto
next
  case False
  from errors_step_other [OF False, of e b tgt s] assms show ?thesis
    by (elim disjE) simp_all
qed

lemma dom_errors_run:
  "dom (errors (run e b tgt init evs)) \<subseteq>
     {ascii ''name'', ascii ''email'', ascii ''phone'', ascii ''car_make_model'',
      ascii ''year'', ascii ''mileage''}"
proof (induction evs rule: rev_induct)
  case Nil
  show ?case by (simp add: run_Nil init_def)
next
  case (snoc ev evs)
  then show ?case
    by (simp only: run_snoc dom_errors_step)
qed

text \<open>
  C7. In every state the component reaches from its initial state, whatever the events,
  the variant and the value of \<^verbatim>\<open>e.currentTarget\<close> after the await, the keys of the error map
  are among name, email, phone, car_make_model, year and mileage. A submit request that
  is processed replaces the map by the map of the current field values, whatever it held
  before, and that map is non-empty exactly when validation fails; a submit request
  while the flag is up leaves it alone; every other event leaves the map as it is or
  empties it.
\<close>

theorem C7_error_map_invariant:
  "dom (errors (run isEmail b tgt init evs)) \<subseteq>
     {ascii ''name'', ascii ''email'', ascii ''phone'', ascii ''car_make_model'',
      ascii ''year'', ascii ''mileage''}
   \<and> errors (step isEmail b tgt s Submit)
       = (if isSubmitting s then errors s else Validate isEmail (form s))
   \<and> (Validate isEmail (form s) = Map.empty) = (validation isEmail (form s) = [])
   \<and> (ev \<noteq> Submit \<longrightarrow>
        errors (step isEmail b tgt s ev) = errors s
        \<or> errors (step isEmail b tgt s ev) = Map.empty)"
  using dom_errors_run [of isEmail b tgt evs] errors_step_Submit [of isEmail b tgt s]
    errors_step_other [of ev isEmail b tgt s]
    validation_Nil_iff [of isEmail "form s"] Validate_empty_iff [of isEmail "form s"]
  by blast

theorem C7_error_map_invariant_witness:
  "dom (errors (run hasAt FirstVariant Null init [Edit badFields, Submit]))
     = {ascii ''name'', ascii ''email'', ascii ''phone'', ascii ''car_make_model'',
        ascii ''year'', ascii ''mileage''}
   \<and> errors (run hasAt FirstVariant Null init [Edit badFields, Submit, Edit anaFields, Submit])
     = Map.empty
   \<and> errors (run hasAt FirstVariant Null init [Edit badFields, Submit, Edit anaFields])
     = errors (run hasAt FirstVariant Null init [Edit badFields, Submit])"
proof -
  let ?s0 = "init\<lparr>form := badFields\<rparr>"
  let ?s1 = "step hasAt FirstVariant Null ?s0 Submit"
  have s0: "run hasAt FirstVariant Null init [Edit badFields] = ?s0"
    by (simp add: run_Cons run_Nil)
  have r1: "run hasAt FirstVariant Null init [Edit badFields, Submit] = ?s1"
    by (simp only: run_Cons run_Nil step.simps)
  have bad: "validation hasAt badFields \<noteq> []"
    by (simp add: validation_Nil_iff badFields_def trim_examples length_ascii)
  note c = C7_error_map_invariant [of hasAt FirstVariant Null]
  have e1: "errors ?s1 = Validate hasAt badFields"
    using c [of "[]" ?s0 Submit] by (simp add: init_def)
  have sub: "dom (errors ?s1) \<subseteq> {ascii ''name'', ascii ''email'', ascii ''phone'',
      ascii ''car_make_model'', ascii ''year'', ascii ''mileage''}"
    using c [of "[Edit badFields, Submit]" ?s0 Submit, THEN conjunct1] unfolding r1 .
  have notat: "\<not> hasAt (ascii ''not-an-email'')"
    by (simp add: hasAt_def ascii_def)
  have sup: "{ascii ''name'', ascii ''email'', ascii ''phone'',
      ascii ''car_make_model'', ascii ''year'', ascii ''mileage''} \<subseteq> dom (errors ?s1)"
    unfolding e1
    by (simp add: dom_def Validate_unfold ascii_eq_iff badFields_def trim_examples length_ascii notat)
  have flag: "\<not> isSubmitting ?s1"
    using bad by (simp add: handleSubmit_invalid init_def)
  have e2: "errors (step hasAt FirstVariant Null (?s1\<lparr>form := anaFields\<rparr>) Submit) = Map.empty"
    using c [of "[]" "?s1\<lparr>form := anaFields\<rparr>" Submit] flag validation_anaFields
    by (simp add: Validate_valid)
  have r2: "run hasAt FirstVariant Null init [Edit badFields, Submit, Edit anaFields, Submit]
      = step hasAt FirstVariant Null (?s1\<lparr>form := anaFields\<rparr>) Submit"
    by (simp only: run_Cons run_Nil step.simps)
  have r3: "run hasAt FirstVariant Null init [Edit badFields, Submit, Edit anaFields]
      = ?s1\<lparr>form := anaFields\<rparr>"
    by (simp only: run_Cons run_Nil step.simps)
  from sub sup have d: "dom (errors ?s1) = {ascii ''name'', ascii ''email'', ascii ''phone'',
      ascii ''car_make_model'', ascii ''year'', ascii ''mileage''}"
    by (rule subset_antisym)
  have e3: "errors (?s1\<lparr>form := anaFields\<rparr>) = errors ?s1"
    by simp
  show ?thesis
    unfolding r1 r2 r3 using d e2 e3 by (intro conjI)
qed

text \<open>
  C8. The error map that a processed submit request leaves, and whether validation
  succeeds, are functions of the six validated field values alone: two states that agree
  on these six values get the same map, whatever their other controls, staged files,
  previous errors, flag and variant. Validation does not write to the form: the controls
  hold the same values afterwards (the trimmed copies live inside the parser), so
  validating again gives the same map.
\<close>

theorem C8_Validate_pure:
  assumes "name (form s) = name (form t)"
    and "email (form s) = email (form t)"
    and "phone (form s) = phone (form t)"
    and "car_make_model (form s) = car_make_model (form t)"
    and "year (form s) = year (form t)"
    and "mileage (form s) = mileage (form t)"
  shows "Validate isEmail (form s) = Validate isEmail (form t)
    \<and> validation isEmail (form s) = validation isEmail (form t)
    \<and> errors (handleSubmit isEmail b s) = errors (handleSubmit isEmail b' t)
    \<and> form (handleSubmit isEmail b s) = form s
    \<and> errors (handleSubmit isEmail b (handleSubmit isEmail b s)) = errors (handleSubmit isEmail b s)"
proof -
  have v: "validation isEmail (form s) = validation isEmail (form t)"
    using assms by (simp add: validation_unfold)
  then have "Validate isEmail (form s) = Validate isEmail (form t)"
    by (simp add: Validate_def)
  with v show ?thesis
    by (simp add: errors_handleSubmit form_handleSubmit)
qed

theorem C8_Validate_pure_witness:
  "errors (handleSubmit hasAt FirstVariant (init\<lparr>form := badFields\<rparr>))
     = errors (handleSubmit hasAt SecondVariant
         (anaState\<lparr>form := badFields\<lparr>fuel_type := ascii ''dizel''\<rparr>, isSubmitting := True\<rparr>))
   \<and> form (handleSubmit hasAt FirstVariant (init\<lparr>form := badFields\<rparr>)) = badFields"
  using C8_Validate_pure [of "init\<lparr>form := badFields\<rparr>"
      "anaState\<lparr>form := badFields\<lparr>fuel_type := ascii ''dizel''\<rparr>, isSubmitting := True\<rparr>"
      hasAt FirstVariant SecondVariant]
  by simp

subsection \<open>A successful submission\<close>

lemma run_Submit_Settle:
  assumes "validation e (form s) = []" and "\<not> isSubmitting s" and "pending s = []"
  shows "run e b tgt s [Submit, Settle out]
    = handleSubmit_cont b tgt out (s\<lparr>errors := Map.empty, isSubmitting := True\<rparr>)"
proof -
  let ?s1 = "step e b tgt s Submit"
  have s1: "?s1 = s\<lparr>errors := Map.empty, isSubmitting := True,
      pending := [appendFiles b (uploadedFiles s) (FormData b (form s))]\<rparr>"
    using assms by (simp add: handleSubmit_valid)
  have "run e b tgt s [Submit, Settle out] = step e b tgt ?s1 (Settle out)"
    by (simp only: run_Cons run_Nil)
  also have "\<dots> = handleSubmit_cont b tgt out
      (s\<lparr>errors := Map.empty, isSubmitting := True, pending := []\<rparr>)"
    unfolding s1 by simp
  also have "s\<lparr>errors := Map.empty, isSubmitting := True, pending := []\<rparr>
      = s\<lparr>errors := Map.empty, isSubmitting := True\<rparr>"
    using assms(3) by simp
  finally show ?thesis .
qed

text \<open>
  With \<^verbatim>\<open>e.currentTarget\<close> as the event system leaves it, the success branch shows its toast
  and then throws at \<^verbatim>\<open>reset\<close>: the \<^verbatim>\<open>catch\<close> block adds the failure toast, and neither the
  form nor the staged files are cleared.
\<close>

lemma success_after_dispatch:
  assumes "validation e (form s) = []" and "\<not> isSubmitting s" and "pending s = []"
    and "reportsSuccess b out"
  shows "form (run e b afterDispatch s [Submit, Settle out]) = form s"
    and "uploadedFiles (run e b afterDispatch s [Submit, Settle out]) = uploadedFiles s"
    and "errors (run e b afterDispatch s [Submit, Settle out]) = Map.empty"
    and "toasts (run e b afterDispatch s [Submit, Settle out])
      = toasts s @ [toast_success, toast_failure]"
    and "\<not> isSubmitting (run e b afterDispatch s [Submit, Settle out])"
  using assms(4)
  by (cases b; simp add: run_Submit_Settle [OF assms(1-3)] afterDispatch_def cont_success_Null)+

text \<open>Had the handler kept the form element, the same branch would clear all three.\<close>

lemma success_with_form_element:
  assumes "validation e (form s) = []" and "\<not> isSubmitting s" and "pending s = []"
    and "reportsSuccess b out"
  shows "form (run e b FormElement s [Submit, Settle out]) = emptyFields"
    and "uploadedFiles (run e b FormElement s [Submit, Settle out]) = []"
    and "errors (run e b FormElement s [Submit, Settle out]) = Map.empty"
    and "toasts (run e b FormElement s [Submit, Settle out]) = toasts s @ [toast_success]"
    and "\<not> isSubmitting (run e b FormElement s [Submit, Settle out])"
  using assms(4)
  by (simp_all add: run_Submit_Settle [OF assms(1-3)] cont_success_FormElement)

lemma anaState_ready:
  "validation hasAt (form anaState) = []" "\<not> isSubmitting anaState" "pending anaState = []"
  "form anaState = anaFields" "uploadedFiles anaState = [smallFile]" "toasts anaState = []"
  "console anaState = []"
  using validation_anaFields by (simp_all add: anaState_def init_def)

text \<open>
  C2. On the form of scenario 7 with one staged file, a submission that the endpoint
  answers with success (\<^verbatim>\<open>data.success\<close> true, \<^verbatim>\<open>response.ok\<close> true) ends, in both variants,
  with the form controls and the staged file still in place, the success toast followed
  by the failure toast, an empty error map and the flag down: lines 99 and 552 call
  \<^verbatim>\<open>reset\<close> on \<^verbatim>\<open>e.currentTarget\<close> after the await, where it is \<^verbatim>\<open>null\<close>, and the throw skips the
  two statements that would clear the staged files and the errors.
\<close>

theorem C2_success_leaves_form_and_files:
  "form (run hasAt FirstVariant afterDispatch anaState
      [Submit, Settle (Response True (JsonValue True []))]) = anaFields
   \<and> uploadedFiles (run hasAt FirstVariant afterDispatch anaState
      [Submit, Settle (Response True (JsonValue True []))]) = [smallFile]
   \<and> errors (run hasAt FirstVariant afterDispatch anaState
      [Submit, Settle (Response True (JsonValue True []))]) = Map.empty
   \<and> toasts (run hasAt FirstVariant afterDispatch anaState
      [Submit, Settle (Response True (JsonValue True []))]) = [toast_success, toast_failure]
   \<and> isSubmitting (run hasAt FirstVariant afterDispatch anaState
      [Submit, Settle (Response True (JsonValue True []))]) = False
   \<and> form (run hasAt SecondVariant afterDispatch anaState
      [Submit, Settle (Response True (JsonValue True []))]) = anaFields
   \<and> uploadedFiles (run hasAt SecondVariant afterDispatch anaState
      [Submit, Settle (Response True (JsonValue True []))]) = [smallFile]
   \<and> toasts (run hasAt SecondVariant afterDispatch anaState
      [Submit, Settle (Response True (JsonValue True []))]) = [toast_success, toast_failure]"
proof -
  have a: "reportsSuccess FirstVariant (Response True (JsonValue True []))"
    and b: "reportsSuccess SecondVariant (Response True (JsonValue True []))"
    by (simp_all add: reportsSuccess_def)
  show ?thesis
    using success_after_dispatch [OF anaState_ready(1-3) a]
      success_after_dispatch [OF anaState_ready(1-3) b]
    by (simp add: anaState_ready)
qed

subsection \<open>A failed submission\<close>

lemma reportsSuccess_iff:
  "reportsSuccess FirstVariant out = (\<exists>ok msg. out = Response ok (JsonValue True msg))"
  "reportsSuccess SecondVariant out = (\<exists>data. out = Response True data)"
  by (auto simp add: reportsSuccess_def split: outcome.splits body.splits)

lemma specFailure_if_read_as_failure: "\<not> reportsSuccess b out \<Longrightarrow> specFailure out"
  by (cases b) (auto simp add: reportsSuccess_def specFailure_def split: outcome.splits body.splits)

text \<open>
  C3, as stated, fails: each variant reads only one of the two signs of failure. On the
  form of scenario 7, an HTTP 200 answer whose body says \<^verbatim>\<open>success: false\<close> is a failure by
  the spec's reading, yet the second variant looks at \<^verbatim>\<open>response.ok\<close> alone and takes its
  success branch: the success toast is shown before the failure toast, and with the form
  element at hand the staged file would be dropped. Likewise a non-2xx answer whose body
  says \<^verbatim>\<open>success: true\<close> takes the success branch of the first variant.
\<close>

theorem C3_failure_read_as_success:
  "validation hasAt (form anaState) = []
   \<and> isSubmitting anaState = False
   \<and> pending anaState = []
   \<and> specFailure (Response True (JsonValue False (ascii ''Invalid access key'')))
   \<and> toasts (run hasAt SecondVariant afterDispatch anaState
        [Submit, Settle (Response True (JsonValue False (ascii ''Invalid access key'')))])
       = [toast_success, toast_failure]
   \<and> toasts (run hasAt SecondVariant afterDispatch anaState
        [Submit, Settle (Response True (JsonValue False (ascii ''Invalid access key'')))])
       \<noteq> toasts anaState @ [toast_failure]
   \<and> uploadedFiles anaState = [smallFile]
   \<and> uploadedFiles (run hasAt SecondVariant FormElement anaState
        [Submit, Settle (Response True (JsonValue False (ascii ''Invalid access key'')))]) = []
   \<and> specFailure (Response False (JsonValue True []))
   \<and> toasts (run hasAt FirstVariant afterDispatch anaState
        [Submit, Settle (Response False (JsonValue True []))])
       = [toast_success, toast_failure]"
proof -
  have a: "reportsSuccess SecondVariant (Response True (JsonValue False (ascii ''Invalid access key'')))"
    and b: "reportsSuccess FirstVariant (Response False (JsonValue True []))"
    by (simp_all add: reportsSuccess_def)
  have f: "specFailure (Response True (JsonValue False (ascii ''Invalid access key'')))"
    "specFailure (Response False (JsonValue True []))"
    by (simp_all add: specFailure_def)
  show ?thesis
    using f success_after_dispatch [OF anaState_ready(1-3) a]
      success_after_dispatch [OF anaState_ready(1-3) b]
      success_with_form_element [OF anaState_ready(1-3) a]
    by (simp add: anaState_ready validation_anaFields)
qed

text \<open>
  C3, amended. Take any state whose validated fields pass, with no submission under
  way, either variant, and an outcome that the variant in use does not read as success:
  the promise rejects; or, in the first variant, the body does not parse, is \<^verbatim>\<open>null\<close>, or
  its \<^verbatim>\<open>success\<close> is falsy, whatever the status; or, in the second variant, \<^verbatim>\<open>response.ok\<close> is
  false, whatever the body. Every such outcome is a failure by the spec's reading.
  Submitting sends one request, and once it settles the form controls and the staged
  files are what they were, the flag is down, and exactly one toast was added: the fixed
  failure toast, the same for every outcome and every error. This holds whatever
  \<^verbatim>\<open>e.currentTarget\<close> is by then.
\<close>

theorem C3_failure_keeps_input:
  assumes "validation isEmail (form s) = []"
    and "\<not> isSubmitting s"
    and "pending s = []"
    and "\<not> reportsSuccess b out"
  shows "length (pending (run isEmail b tgt s [Submit])) = 1
    \<and> form (run isEmail b tgt s [Submit, Settle out]) = form s
    \<and> uploadedFiles (run isEmail b tgt s [Submit, Settle out]) = uploadedFiles s
    \<and> \<not> isSubmitting (run isEmail b tgt s [Submit, Settle out])
    \<and> toasts (run isEmail b tgt s [Submit, Settle out]) = toasts s @ [toast_failure]
    \<and> pending (run isEmail b tgt s [Submit, Settle out]) = []
    \<and> specFailure out
    \<and> reportsSuccess FirstVariant out' = (\<exists>ok msg. out' = Response ok (JsonValue True msg))
    \<and> reportsSuccess SecondVariant out' = (\<exists>data. out' = Response True data)"
proof -
  let ?s1 = "step isEmail b tgt s Submit"
  let ?r = "appendFiles b (uploadedFiles s) (FormData b (form s))"
  have s1: "?s1 = s\<lparr>errors := Map.empty, isSubmitting := True, pending := [?r]\<rparr>"
    using assms(1-3) by (simp add: handleSubmit_valid)
  have r1: "run isEmail b tgt s [Submit] = ?s1"
    by (simp only: run_Cons run_Nil)
  have "run isEmail b tgt s [Submit, Settle out] = step isEmail b tgt ?s1 (Settle out)"
    by (simp only: run_Cons run_Nil)
  also have "\<dots> = handleSubmit_cont b tgt out
      (s\<lparr>errors := Map.empty, isSubmitting := True, pending := []\<rparr>)"
    unfolding s1 by simp
  finally have s2: "run isEmail b tgt s [Submit, Settle out]
      = handleSubmit_cont b tgt out (s\<lparr>errors := Map.empty, isSubmitting := True, pending := []\<rparr>)" .
  have "length (pending (run isEmail b tgt s [Submit])) = 1"
    unfolding r1 s1 by simp
  moreover have "specFailure out"
    using assms(4) by (rule specFailure_if_read_as_failure)
  moreover note reportsSuccess_iff [of out']
  ultimately show ?thesis
    using cont_failure_fields [OF assms(4), of tgt "s\<lparr>errors := Map.empty, isSubmitting := True, pending := []\<rparr>"]
    by (simp add: s2 isSubmitting_cont pending_cont)
qed

theorem C3_failure_keeps_input_witness:
  "form (run hasAt FirstVariant Null anaState
      [Submit, Settle (Response True (JsonValue False (ascii ''Invalid access key'')))]) = anaFields
   \<and> uploadedFiles (run hasAt FirstVariant Null anaState
      [Submit, Settle (Response True (JsonValue False (ascii ''Invalid access key'')))]) = [smallFile]
   \<and> toasts (run hasAt FirstVariant Null anaState
      [Submit, Settle (Response True (JsonValue False (ascii ''Invalid access key'')))]) = [toast_failure]
   \<and> isSubmitting (run hasAt FirstVariant Null anaState
      [Submit, Settle (Response True (JsonValue False (ascii ''Invalid access key'')))]) = False
   \<and> toasts (run hasAt SecondVariant FormElement anaState [Submit, Settle Rejected]) = [toast_failure]
   \<and> form (run hasAt SecondVariant FormElement anaState [Submit, Settle Rejected]) = anaFields
   \<and> toasts (run hasAt SecondVariant Null anaState
      [Submit, Settle (Response False (JsonValue True []))]) = [toast_failure]
   \<and> uploadedFiles (run hasAt SecondVariant Null anaState
      [Submit, Settle (Response False (JsonValue True []))]) = [smallFile]"
proof -
  have v: "validation hasAt (form anaState) = []"
    using validation_anaFields by (simp add: anaState_def)
  have i: "\<not> isSubmitting anaState" "pending anaState = []"
    by (simp_all add: anaState_def init_def)
  have f1: "\<not> reportsSuccess FirstVariant (Response True (JsonValue False (ascii ''Invalid access key'')))"
    by (simp add: reportsSuccess_def)
  have f2: "\<not> reportsSuccess SecondVariant Rejected"
    by (simp add: reportsSuccess_def)
  have f3: "\<not> reportsSuccess SecondVariant (Response False (JsonValue True []))"
    by (simp add: reportsSuccess_def)
  show ?thesis
    using C3_failure_keeps_input [OF v i f1, of Null] C3_failure_keeps_input [OF v i f2, of FormElement]
      C3_failure_keeps_input [OF v i f3, of Null]
    by (simp add: anaState_def init_def)
qed

subsection \<open>The two variants side by side\<close>

lemma request_parts:
  "controls (appendFiles b files (FormData b fd)) = fd"
  "attachments (appendFiles FirstVariant files (FormData FirstVariant fd)) = []"
  "map snd (attachments (appendFiles SecondVariant files (FormData SecondVariant fd))) = files"
  "map fst (attachments (appendFiles SecondVariant files (FormData SecondVariant fd)))
     = map (\<lambda>index. ascii ''attachment_'' @ decimal index) [0..<length files]"
proof -
  let ?g = "\<lambda>index. ascii ''attachment_'' @ decimal index"
  let ?h = "\<lambda>(index, f::File). (?g index, f)"
  show "controls (appendFiles b files (FormData b fd)) = fd"
    by (cases b) (simp_all add: appendFiles_def FormData_def)
  show "attachments (appendFiles FirstVariant files (FormData FirstVariant fd)) = []"
    by (simp add: appendFiles_def FormData_def)
  have c: "snd \<circ> ?h = snd"
    by (auto simp add: fun_eq_iff)
  have "map snd (map ?h (enumerate 0 files)) = files"
    by (simp add: c)
  then show "map snd (attachments (appendFiles SecondVariant files (FormData SecondVariant fd))) = files"
    by (simp add: appendFiles_def FormData_def del: map_map)
  have "map fst (map ?h (enumerate 0 files)) = map ?g [0..<length files]"
    by (rule nth_equalityI) (simp_all add: nth_enumerate_eq)
  then show "map fst (attachments (appendFiles SecondVariant files (FormData SecondVariant fd)))
     = map ?g [0..<length files]"
    by (simp add: appendFiles_def FormData_def del: map_map)
qed

lemma sameUI_handleSubmit:
  assumes "sameUI s t"
  shows "sameUI (handleSubmit e FirstVariant s) (handleSubmit e SecondVariant t)"
proof (cases "validation e (form s) = []")
  case True
  with assms have "validation e (form t) = []" by (simp add: sameUI_def)
  with True assms show ?thesis
    by (simp add: handleSubmit_valid sameUI_def request_parts(1))
next
  case False
  with assms have "validation e (form t) \<noteq> []" by (simp add: sameUI_def)
  with False assms show ?thesis
    by (simp add: handleSubmit_invalid sameUI_def)
qed

lemma sameUI_cont:
  assumes "sameUI s t"
    and "reportsSuccess FirstVariant out = reportsSuccess SecondVariant out"
  shows "sameUI (handleSubmit_cont FirstVariant tgt out s) (handleSubmit_cont SecondVariant tgt out t)"
proof (cases "reportsSuccess FirstVariant out")
  case False
  with assms(2) have f2: "\<not> reportsSuccess SecondVariant out" by simp
  from cont_failure [OF False, of tgt s] cont_failure [OF f2, of tgt t] assms(1)
  show ?thesis by (auto simp add: sameUI_def)
next
  case True
  with assms(2) have t2: "reportsSuccess SecondVariant out" by simp
  show ?thesis
  proof (cases tgt)
    case Null
    with True t2 assms(1) show ?thesis
      by (simp add: cont_success_Null sameUI_def)
  next
    case FormElement
    with True t2 assms(1) show ?thesis
      by (simp add: cont_success_FormElement sameUI_def)
  qed
qed

lemma sameUI_step:
  assumes "sameUI s t" and "sameVerdict ev"
  shows "sameUI (step e FirstVariant tgt s ev) (step e SecondVariant tgt t ev)"
proof (cases ev)
  case (Edit fd)
  with assms show ?thesis by (simp add: sameUI_def)
next
  case (FileChange fl)
  with assms show ?thesis
    by (simp add: sameUI_def handleFileChange_def Let_def split: prod.splits)
next
  case (RemoveClick i)
  with assms show ?thesis by (simp add: sameUI_def removeFile_def)
next
  case Submit
  show ?thesis
  proof (cases "isSubmitting s")
    case True
    with assms Submit show ?thesis by (simp add: sameUI_def)
  next
    case False
    with assms have "\<not> isSubmitting t" by (simp add: sameUI_def)
    with False Submit sameUI_handleSubmit [OF assms(1)] show ?thesis by simp
  qed
next
  case (Settle out)
  with assms(2) have v: "reportsSuccess FirstVariant out = reportsSuccess SecondVariant out"
    by (simp add: sameVerdict_def)
  show ?thesis
  proof (cases "pending s")
    case Nil
    with assms(1) have "pending t = []" by (simp add: sameUI_def)
    with Nil Settle assms(1) show ?thesis by simp
  next
    case (Cons r rs)
    with assms(1) obtain r' rs' where t: "pending t = r' # rs'"
      by (cases "pending t") (simp_all add: sameUI_def)
    from assms(1) Cons t have "sameUI (s\<lparr>pending := rs\<rparr>) (t\<lparr>pending := rs'\<rparr>)"
      by (simp add: sameUI_def)
    from sameUI_cont [OF this v] Cons t Settle show ?thesis by simp
  qed
qed

lemma sameUI_run:
  assumes "sameUI s t" and "list_all sameVerdict evs"
  shows "sameUI (run e FirstVariant tgt s evs) (run e SecondVariant tgt t evs)"
  using assms
proof (induction evs arbitrary: s t)
  case Nil
  then show ?case by (simp add: run_Nil)
next
  case (Cons ev evs)
  from Cons.prems have "sameUI (step e FirstVariant tgt s ev) (step e SecondVariant tgt t ev)"
    by (simp add: sameUI_step)
  with Cons show ?case by (simp add: run_Cons)
qed

text \<open>
  C9, as stated, fails: the variants read the response differently. On the form of
  scenario 7, an HTTP 200 answer whose body is not JSON is a failure for the first
  variant (\<^verbatim>\<open>response.json()\<close> throws) and a success for the second (\<^verbatim>\<open>response.ok\<close>); the
  toasts shown differ, and with the form element at hand so do the staged files.
\<close>

theorem C9_variants_read_response_differently:
  "reportsSuccess FirstVariant (Response True Unparseable) = False
   \<and> reportsSuccess SecondVariant (Response True Unparseable) = True
   \<and> toasts (run hasAt FirstVariant afterDispatch anaState [Submit, Settle (Response True Unparseable)])
       = [toast_failure]
   \<and> toasts (run hasAt SecondVariant afterDispatch anaState [Submit, Settle (Response True Unparseable)])
       = [toast_success, toast_failure]
   \<and> toasts (run hasAt FirstVariant afterDispatch anaState [Submit, Settle (Response True Unparseable)])
       \<noteq> toasts (run hasAt SecondVariant afterDispatch anaState [Submit, Settle (Response True Unparseable)])
   \<and> uploadedFiles (run hasAt FirstVariant FormElement anaState [Submit, Settle (Response True Unparseable)])
       \<noteq> uploadedFiles (run hasAt SecondVariant FormElement anaState [Submit, Settle (Response True Unparseable)])"
proof -
  have a: "\<not> reportsSuccess FirstVariant (Response True Unparseable)"
    and b: "reportsSuccess SecondVariant (Response True Unparseable)"
    by (simp_all add: reportsSuccess_def)
  have r: "run hasAt FirstVariant tgt anaState [Submit, Settle (Response True Unparseable)]
      = handleSubmit_cont FirstVariant tgt (Response True Unparseable)
          (anaState\<lparr>errors := Map.empty, isSubmitting := True\<rparr>)" for tgt
    by (rule run_Submit_Settle [OF anaState_ready(1-3)])
  have f: "toasts (run hasAt FirstVariant tgt anaState [Submit, Settle (Response True Unparseable)])
      = [toast_failure]"
    "uploadedFiles (run hasAt FirstVariant tgt anaState [Submit, Settle (Response True Unparseable)])
      = [smallFile]" for tgt
    using cont_failure_fields [OF a, of tgt "anaState\<lparr>errors := Map.empty, isSubmitting := True\<rparr>"]
    by (simp_all add: r anaState_ready)
  show ?thesis
    using a b f [of afterDispatch] f [of FormElement]
      success_after_dispatch [OF anaState_ready(1-3) b]
      success_with_form_element [OF anaState_ready(1-3) b]
    by (simp add: anaState_ready)
qed

text \<open>
  C9, amended. \<^verbatim>\<open>contactSchema\<close>, \<^verbatim>\<open>handleFileChange\<close> and \<^verbatim>\<open>removeFile\<close> are the same text in
  both variants (one definition each above). Started in states that look alike, and fed
  the same events, the two variants stay alike in flag, staged files, error map, controls,
  toasts and the field values of their pending requests, provided every outcome that
  settles a request is read alike by both (\<^verbatim>\<open>data.success\<close> truthy exactly when
  \<^verbatim>\<open>response.ok\<close>). Their requests carry the same field values; the first never carries a
  file, the second carries every staged file, in order, as \<^verbatim>\<open>attachment_0\<close>,
  \<^verbatim>\<open>attachment_1\<close>, and so on.
\<close>

theorem C9_variants_agree_on_equal_verdicts:
  assumes "sameUI s t" and "list_all sameVerdict evs"
  shows "sameUI (run isEmail FirstVariant tgt s evs) (run isEmail SecondVariant tgt t evs)
    \<and> controls (appendFiles FirstVariant files (FormData FirstVariant fd))
        = controls (appendFiles SecondVariant files (FormData SecondVariant fd))
    \<and> attachments (appendFiles FirstVariant files (FormData FirstVariant fd)) = []
    \<and> map snd (attachments (appendFiles SecondVariant files (FormData SecondVariant fd))) = files
    \<and> map fst (attachments (appendFiles SecondVariant files (FormData SecondVariant fd)))
        = map (\<lambda>index. ascii ''attachment_'' @ decimal index) [0..<length files]"
  using sameUI_run [OF assms] by (simp add: request_parts)

theorem C9_variants_agree_on_equal_verdicts_witness:
  "sameUI
     (run hasAt FirstVariant Null anaState
        [Submit, FileChange (Some [bigFile]), Settle (Response False (JsonValue False [])), RemoveClick 0])
     (run hasAt SecondVariant Null anaState
        [Submit, FileChange (Some [bigFile]), Settle (Response False (JsonValue False [])), RemoveClick 0])
   \<and> map snd (attachments (appendFiles SecondVariant [smallFile, bigFile]
        (FormData SecondVariant anaFields))) = [smallFile, bigFile]
   \<and> attachments (appendFiles FirstVariant [smallFile, bigFile] (FormData FirstVariant anaFields)) = []"
proof -
  have s: "sameUI anaState anaState"
    by (simp add: sameUI_def)
  have v: "list_all sameVerdict
      [Submit, FileChange (Some [bigFile]), Settle (Response False (JsonValue False [])), RemoveClick 0]"
    by (simp add: sameVerdict_def reportsSuccess_def)
  show ?thesis
    using C9_variants_agree_on_equal_verdicts [OF s v, of hasAt Null "[smallFile, bigFile]" anaFields]
    by simp
qed

end
